theory Spec2Isabelle
  imports Main "HOL-Library.Word" "HOL-Library.AList"
begin

section \<open>Data model\<close>

text \<open>
  The program is a single Go file, \<^verbatim>\<open>src/go-app/main.go\<close>: an in-memory store of
  patients behind a mutex, two HTTP handlers over it, and a CORS middleware.
  Go's \<^verbatim>\<open>int64\<close> is a 64-bit word (addition wraps, \<open>sint\<close> reads the sign), Go's
  \<^verbatim>\<open>int\<close> status codes are integers, and a Go string is its list of bytes.
\<close>

type_synonym int64 = "64 word"

record Patient =
  ID :: int64
  Fullname :: string
  Sex :: string
  Birthdate :: string
  Address :: string

text \<open>The zero value of the struct, as \<^verbatim>\<open>var p Patient\<close> and \<^verbatim>\<open>make\<close> produce it.\<close>

definition zeroPatient :: Patient where
  "zeroPatient = \<lparr>ID = 0, Fullname = [], Sex = [], Birthdate = [], Address = []\<rparr>"

subsection \<open>Slices and their backing arrays\<close>

text \<open>
  \<^verbatim>\<open>Store.users\<close> is a slice: a pointer to a backing array with a length and a
  capacity. \<^verbatim>\<open>Update\<close> and \<^verbatim>\<open>Delete\<close> write into that array in place, and
  \<^verbatim>\<open>append\<close> does so while the capacity lasts, so whether two slices share an array
  is observable. Memory is therefore explicit: a list of arrays, the address of an array
  being its position, and an array being the list of its \<open>cap\<close> elements. Every slice
  of the program starts at the beginning of its array (the only reslicing, in
  \<^verbatim>\<open>Delete\<close>, is \<^verbatim>\<open>s.users[:i]\<close>), so a slice carries no offset.
\<close>

record slice =
  arr :: nat
  len :: nat
  cap :: nat

type_synonym mem = "Patient list list"

definition elems :: "mem \<Rightarrow> slice \<Rightarrow> Patient list" where
  "elems m sl = take (len sl) (m ! arr sl)"

text \<open>\<^verbatim>\<open>make([]Patient, n)\<close>: a fresh array of \<open>n\<close> zero values.\<close>

definition make_slice :: "nat \<Rightarrow> mem \<Rightarrow> slice \<times> mem" where
  "make_slice n m = (\<lparr>arr = length m, len = n, cap = n\<rparr>, m @ [replicate n zeroPatient])"

text \<open>Overwriting the elements of an array from position \<open>k\<close> on with \<open>xs\<close>.\<close>

definition write_at :: "'a list \<Rightarrow> nat \<Rightarrow> 'a list \<Rightarrow> 'a list" where
  "write_at A k xs = take k A @ xs @ drop (k + length xs) A"

text \<open>\<^verbatim>\<open>copy(dst, src)\<close> copies \<open>min (len dst) (len src)\<close> elements.\<close>

definition copy_slice :: "slice \<Rightarrow> slice \<Rightarrow> mem \<Rightarrow> mem" where
  "copy_slice dst src m =
     (let n = min (len dst) (len src)
      in m[arr dst := write_at (m ! arr dst) 0 (take n (elems m src))])"

text \<open>
  \<^verbatim>\<open>append(dst, xs...)\<close>. When the capacity suffices the elements are written into the
  backing array of \<open>dst\<close> after its length. Otherwise a new array is allocated and the
  old one is left as it was; the capacity Go picks then is up to its runtime, at least
  the length needed, so it is a parameter \<open>grow\<close> (old capacity, length needed) of the
  model. The source elements are read before anything is written, as the runtime's
  \<^verbatim>\<open>memmove\<close> guarantees for overlapping slices.
\<close>

type_synonym growth = "nat \<Rightarrow> nat \<Rightarrow> nat"

definition append_slice :: "growth \<Rightarrow> slice \<Rightarrow> Patient list \<Rightarrow> mem \<Rightarrow> slice \<times> mem" where
  "append_slice grow dst xs m =
     (let n = len dst + length xs in
      if n \<le> cap dst
      then (dst\<lparr>len := n\<rparr>, m[arr dst := write_at (m ! arr dst) (len dst) xs])
      else
        (let c = max n (grow (cap dst) n)
         in (\<lparr>arr = length m, len = n, cap = c\<rparr>,
             m @ [elems m dst @ xs @ replicate (c - n) zeroPatient])))"

subsection \<open>Responses\<close>

text \<open>
  \<^verbatim>\<open>Response.Data\<close> is an \<^verbatim>\<open>interface{}\<close>: in this program it is nil, a Patient
  (copied by value) or the slice \<^verbatim>\<open>List\<close> returns.
\<close>

datatype data = NoData | PatientVal Patient | PatientSlice slice

record Response =
  Code :: int
  Status :: string
  Data :: data

definition zeroResponse :: Response where
  "zeroResponse = \<lparr>Code = 0, Status = [], Data = NoData\<rparr>"

record ResponseError =
  err_Code :: int
  err_Status :: string
  Error :: string

section \<open>The store\<close>

text \<open>
  Every method of \<^verbatim>\<open>Store\<close> locks \<^verbatim>\<open>mu\<close> on entry and unlocks on return, so the
  methods run one at a time; the model is the sequential one, a method being a function
  on the pair of the memory and the store's fields.
\<close>

record Store =
  users :: slice
  nextID :: int64

type_synonym world = "mem \<times> Store"

definition NewStore :: "mem \<Rightarrow> world" where
  "NewStore m = (let (u, m') = make_slice 0 m in (m', \<lparr>users = u, nextID = 1\<rparr>))"

definition Store_List :: "world \<Rightarrow> Response \<times> world" where
  "Store_List w =
     (let (m, s) = w;
          (out, m1) = make_slice (len (users s)) m;
          m2 = copy_slice out (users s) m1
      in (\<lparr>Code = 200, Status = ''Ok'', Data = PatientSlice out\<rparr>, (m2, s)))"

text \<open>The loop of \<^verbatim>\<open>Get\<close> over the elements, returning at the first match.\<close>

fun Get_loop :: "int64 \<Rightarrow> Patient list \<Rightarrow> Response \<times> bool" where
  "Get_loop i [] = (zeroResponse, False)"
| "Get_loop i (p # ps) =
     (if ID p = i then (\<lparr>Code = 200, Status = ''Ok'', Data = PatientVal p\<rparr>, True)
      else Get_loop i ps)"

definition Store_Get :: "int64 \<Rightarrow> world \<Rightarrow> Response \<times> bool" where
  "Store_Get i w = (let (m, s) = w in Get_loop i (elems m (users s)))"

definition Store_Create :: "growth \<Rightarrow> Patient \<Rightarrow> world \<Rightarrow> Response \<times> world" where
  "Store_Create grow p0 w =
     (let (m, s) = w;
          p = p0\<lparr>ID := nextID s\<rparr>;
          s1 = s\<lparr>nextID := nextID s + 1\<rparr>;
          (u, m') = append_slice grow (users s1) [p] m
      in (\<lparr>Code = 201, Status = ''Created'', Data = PatientVal p\<rparr>, (m', s1\<lparr>users := u\<rparr>)))"

text \<open>
  \<^verbatim>\<open>Update\<close> and \<^verbatim>\<open>Delete\<close> run \<^verbatim>\<open>for i := range s.users\<close> and act at the first
  index whose record has the id, then return: \<open>first_index\<close> is that search.
\<close>

fun first_index :: "int64 \<Rightarrow> Patient list \<Rightarrow> nat option" where
  "first_index i [] = None"
| "first_index i (p # ps) =
     (if ID p = i then Some 0 else map_option Suc (first_index i ps))"

text \<open>The four assignments of \<^verbatim>\<open>Update\<close>, each under its guard \<^verbatim>\<open>upd.F != ""\<close>.\<close>

definition apply_update :: "Patient \<Rightarrow> Patient \<Rightarrow> Patient" where
  "apply_update upd p =
     (let p1 = (if Fullname upd \<noteq> [] then p\<lparr>Fullname := Fullname upd\<rparr> else p);
          p2 = (if Sex upd \<noteq> [] then p1\<lparr>Sex := Sex upd\<rparr> else p1);
          p3 = (if Birthdate upd \<noteq> [] then p2\<lparr>Birthdate := Birthdate upd\<rparr> else p2);
          p4 = (if Address upd \<noteq> [] then p3\<lparr>Address := Address upd\<rparr> else p3)
      in p4)"

definition Store_Update :: "int64 \<Rightarrow> Patient \<Rightarrow> world \<Rightarrow> (Response \<times> bool) \<times> world" where
  "Store_Update i upd w =
     (let (m, s) = w in
      case first_index i (elems m (users s)) of
        None \<Rightarrow> ((zeroResponse, False), (m, s))
      | Some k \<Rightarrow>
          (let a = arr (users s);
               p = apply_update upd ((m ! a) ! k);
               m' = m[a := (m ! a)[k := p]]
           in ((\<lparr>Code = 200, Status = ''Ok'', Data = PatientVal p\<rparr>, True), (m', s))))"

text \<open>
  \<^verbatim>\<open>s.users = append(s.users[:i], s.users[i+1:]...)\<close>: the destination is the
  slice cut to length \<open>i\<close>, with the capacity of \<^verbatim>\<open>s.users\<close>.
\<close>

definition Store_Delete :: "growth \<Rightarrow> int64 \<Rightarrow> world \<Rightarrow> bool \<times> world" where
  "Store_Delete grow i w =
     (let (m, s) = w in
      case first_index i (elems m (users s)) of
        None \<Rightarrow> (False, (m, s))
      | Some k \<Rightarrow>
          (let (u, m') = append_slice grow ((users s)\<lparr>len := k\<rparr>)
                           (drop (k + 1) (elems m (users s))) m
           in (True, (m', s\<lparr>users := u\<rparr>))))"


section \<open>Library functions the handlers call\<close>

subsection \<open>\<^verbatim>\<open>strings.TrimSpace\<close>, \<^verbatim>\<open>strings.TrimPrefix\<close>, \<^verbatim>\<open>strings.TrimSuffix\<close>\<close>

text \<open>
  \<^verbatim>\<open>TrimSpace\<close> removes the leading and the trailing white space of a string, white
  space being the runes of \<^verbatim>\<open>unicode.IsSpace\<close>: the six ASCII characters tab, line
  feed, vertical tab, form feed, carriage return and space, and U+0085, U+00A0, U+1680,
  U+2000 to U+200A, U+2028, U+2029, U+202F, U+205F and U+3000. A Go string is a byte
  sequence in UTF-8, so the latter are the two-byte and three-byte sequences of
  \<open>wideSpaces\<close>; a string starts (ends) with such a rune exactly when it starts (ends)
  with these bytes.
\<close>

definition asciiSpace :: "char \<Rightarrow> bool" where
  "asciiSpace c \<longleftrightarrow>
     c \<in> set [CHR 0x09, CHR 0x0A, CHR 0x0B, CHR 0x0C, CHR 0x0D, CHR 0x20]"

definition wideSpaces :: "string list" where
  "wideSpaces =
     [[CHR 0xC2, CHR 0x85], [CHR 0xC2, CHR 0xA0], [CHR 0xE1, CHR 0x9A, CHR 0x80],
      [CHR 0xE2, CHR 0x80, CHR 0x80], [CHR 0xE2, CHR 0x80, CHR 0x81],
      [CHR 0xE2, CHR 0x80, CHR 0x82], [CHR 0xE2, CHR 0x80, CHR 0x83],
      [CHR 0xE2, CHR 0x80, CHR 0x84], [CHR 0xE2, CHR 0x80, CHR 0x85],
      [CHR 0xE2, CHR 0x80, CHR 0x86], [CHR 0xE2, CHR 0x80, CHR 0x87],
      [CHR 0xE2, CHR 0x80, CHR 0x88], [CHR 0xE2, CHR 0x80, CHR 0x89],
      [CHR 0xE2, CHR 0x80, CHR 0x8A], [CHR 0xE2, CHR 0x80, CHR 0xA8],
      [CHR 0xE2, CHR 0x80, CHR 0xA9], [CHR 0xE2, CHR 0x80, CHR 0xAF],
      [CHR 0xE2, CHR 0x81, CHR 0x9F], [CHR 0xE3, CHR 0x80, CHR 0x80]]"

text \<open>
  Removing the white space a string starts with, \<open>W\<close> being the multi-byte sequences
  to remove. Trimming on the right is the same on the reversed string with the reversed
  sequences.
\<close>

fun strip_space :: "string list \<Rightarrow> string \<Rightarrow> string" where
  "strip_space W [] = []"
| "strip_space W (c # cs) =
     (if asciiSpace c then strip_space W cs
      else if take 2 (c # cs) \<in> set W then strip_space W (drop 1 cs)
      else if take 3 (c # cs) \<in> set W then strip_space W (drop 2 cs)
      else c # cs)"

definition TrimSpace :: "string \<Rightarrow> string" where
  "TrimSpace s = rev (strip_space (map rev wideSpaces) (rev (strip_space wideSpaces s)))"

definition TrimPrefix :: "string \<Rightarrow> string \<Rightarrow> string" where
  "TrimPrefix s prefix =
     (if take (length prefix) s = prefix then drop (length prefix) s else s)"

definition TrimSuffix :: "string \<Rightarrow> string \<Rightarrow> string" where
  "TrimSuffix s suffix =
     (if length suffix \<le> length s \<and> drop (length s - length suffix) s = suffix
      then take (length s - length suffix) s else s)"

subsection \<open>\<^verbatim>\<open>strconv.ParseInt(s, 10, 64)\<close>\<close>

text \<open>
  An optional sign, then one or more decimal digits, the value within the range of
  \<^verbatim>\<open>int64\<close>. Anything else is an error: \<^verbatim>\<open>ErrSyntax\<close> for the empty string, a
  missing digit or a character that is no digit, \<^verbatim>\<open>ErrRange\<close> for a value out of
  range. The loop is that of \<^verbatim>\<open>ParseUint\<close>, which stops at the first of the two.
\<close>

datatype NumError = ErrSyntax | ErrRange

definition isDigit :: "char \<Rightarrow> bool" where
  "isDigit c \<longleftrightarrow> 48 \<le> (of_char c :: int) \<and> (of_char c :: int) \<le> 57"

fun ParseUint_loop :: "int \<Rightarrow> string \<Rightarrow> NumError + int" where
  "ParseUint_loop n [] = Inr n"
| "ParseUint_loop n (c # cs) =
     (if \<not> isDigit c then Inl ErrSyntax
      else if n \<ge> (2 ^ 64 - 1) div 10 + 1 then Inl ErrRange
      else
        (let n1 = n * 10 + (of_char c - 48)
         in if n1 > 2 ^ 64 - 1 then Inl ErrRange else ParseUint_loop n1 cs))"

definition ParseUint :: "string \<Rightarrow> NumError + int" where
  "ParseUint s = (if s = [] then Inl ErrSyntax else ParseUint_loop 0 s)"

definition ParseInt :: "string \<Rightarrow> NumError + int64" where
  "ParseInt s0 =
     (if s0 = [] then Inl ErrSyntax
      else
        (let neg = (hd s0 = CHR ''-'');
             s = (if hd s0 = CHR ''+'' \<or> hd s0 = CHR ''-'' then tl s0 else s0)
         in case ParseUint s of
              Inl ErrSyntax \<Rightarrow> Inl ErrSyntax
            | Inl ErrRange \<Rightarrow> Inl ErrRange
            | Inr un \<Rightarrow>
                if \<not> neg \<and> un \<ge> 2 ^ 63 then Inl ErrRange
                else if neg \<and> un > 2 ^ 63 then Inl ErrRange
                else Inr (if neg then - word_of_int un else word_of_int un)))"

subsection \<open>\<^verbatim>\<open>http.StatusText\<close>\<close>

text \<open>The reason phrases of \<^verbatim>\<open>net/http\<close>; the empty string for any other code.\<close>

definition statusTexts :: "(int \<times> string) list" where
  "statusTexts =
     [(100, ''Continue''), (101, ''Switching Protocols''), (102, ''Processing''),
      (103, ''Early Hints''),
      (200, ''OK''), (201, ''Created''), (202, ''Accepted''),
      (203, ''Non-Authoritative Information''), (204, ''No Content''),
      (205, ''Reset Content''), (206, ''Partial Content''), (207, ''Multi-Status''),
      (208, ''Already Reported''), (226, ''IM Used''),
      (300, ''Multiple Choices''), (301, ''Moved Permanently''), (302, ''Found''),
      (303, ''See Other''), (304, ''Not Modified''), (305, ''Use Proxy''),
      (307, ''Temporary Redirect''), (308, ''Permanent Redirect''),
      (400, ''Bad Request''), (401, ''Unauthorized''), (402, ''Payment Required''),
      (403, ''Forbidden''), (404, ''Not Found''), (405, ''Method Not Allowed''),
      (406, ''Not Acceptable''), (407, ''Proxy Authentication Required''),
      (408, ''Request Timeout''), (409, ''Conflict''), (410, ''Gone''),
      (411, ''Length Required''), (412, ''Precondition Failed''),
      (413, ''Request Entity Too Large''), (414, ''Request URI Too Long''),
      (415, ''Unsupported Media Type''), (416, ''Requested Range Not Satisfiable''),
      (417, ''Expectation Failed''), (418, ''I'' @ [CHR 0x27] @ ''m a teapot''),
      (421, ''Misdirected Request''), (422, ''Unprocessable Entity''), (423, ''Locked''),
      (424, ''Failed Dependency''), (425, ''Too Early''), (426, ''Upgrade Required''),
      (428, ''Precondition Required''), (429, ''Too Many Requests''),
      (431, ''Request Header Fields Too Large''),
      (451, ''Unavailable For Legal Reasons''),
      (500, ''Internal Server Error''), (501, ''Not Implemented''), (502, ''Bad Gateway''),
      (503, ''Service Unavailable''), (504, ''Gateway Timeout''),
      (505, ''HTTP Version Not Supported''), (506, ''Variant Also Negotiates''),
      (507, ''Insufficient Storage''), (508, ''Loop Detected''), (510, ''Not Extended''),
      (511, ''Network Authentication Required'')]"

definition StatusText :: "int \<Rightarrow> string" where
  "StatusText code = (case map_of statusTexts code of Some t \<Rightarrow> t | None \<Rightarrow> [])"

subsection \<open>\<^verbatim>\<open>http.ResponseWriter\<close> and \<^verbatim>\<open>json.Encoder\<close>\<close>

text \<open>
  What a handler has sent: the header fields, the status code once the header is
  written, and the values encoded into the body. The body is kept as the encoded
  values, not as the JSON text: \<open>WResponse\<close> is the object with the keys \<^verbatim>\<open>code\<close>,
  \<^verbatim>\<open>status\<close> and \<^verbatim>\<open>data\<close>, \<open>WError\<close> the one with \<^verbatim>\<open>code\<close>, \<^verbatim>\<open>status\<close> and
  \<^verbatim>\<open>error\<close>. Encoding reads a slice through the memory of that moment.
\<close>

datatype wdata = WNull | WPatient Patient | WPatients "Patient list"

datatype wire = WResponse int string wdata | WError int string string

record ResponseWriter =
  header :: "(string \<times> string) list"
  status :: "int option"
  body :: "wire list"

definition newResponseWriter :: ResponseWriter where
  "newResponseWriter = \<lparr>header = [], status = None, body = []\<rparr>"

text \<open>\<^verbatim>\<open>w.Header().Set(k, v)\<close>; a field set after the header is written is not sent.\<close>

definition Header_Set :: "string \<Rightarrow> string \<Rightarrow> ResponseWriter \<Rightarrow> ResponseWriter" where
  "Header_Set k v w =
     (if status w = None then w\<lparr>header := AList.update k v (header w)\<rparr> else w)"

text \<open>
  \<^verbatim>\<open>w.WriteHeader(code)\<close> panics on a code outside 100..999 (the result \<open>None\<close>);
  the first call fixes the status, a later one changes nothing.
\<close>

definition WriteHeader :: "int \<Rightarrow> ResponseWriter \<Rightarrow> ResponseWriter option" where
  "WriteHeader code w =
     (if code < 100 \<or> code > 999 then None
      else if status w = None then Some (w\<lparr>status := Some code\<rparr>)
      else Some w)"

text \<open>
  A write to the body first writes the header with 200 when none is written yet; a
  response with status 1xx, 204 or 304 takes no body.
\<close>

definition bodyAllowedForStatus :: "int \<Rightarrow> bool" where
  "bodyAllowedForStatus code \<longleftrightarrow> \<not> (100 \<le> code \<and> code \<le> 199) \<and> code \<noteq> 204 \<and> code \<noteq> 304"

definition Write :: "wire \<Rightarrow> ResponseWriter \<Rightarrow> ResponseWriter" where
  "Write x w =
     (let code = (case status w of None \<Rightarrow> 200 | Some c \<Rightarrow> c)
      in if bodyAllowedForStatus code
         then w\<lparr>status := Some code, body := body w @ [x]\<rparr>
         else w\<lparr>status := Some code\<rparr>)"

datatype jsonable = JResponse Response | JError ResponseError

fun Encode :: "mem \<Rightarrow> jsonable \<Rightarrow> wire" where
  "Encode m (JResponse r) =
     WResponse (Code r) (Status r)
       (case Data r of
          NoData \<Rightarrow> WNull
        | PatientVal p \<Rightarrow> WPatient p
        | PatientSlice sl \<Rightarrow> WPatients (elems m sl))"
| "Encode m (JError e) = WError (err_Code e) (err_Status e) (Error e)"

subsection \<open>\<^verbatim>\<open>encoding/json\<close>: decoding a request body\<close>

text \<open>
  \<^verbatim>\<open>json.NewDecoder(r.Body).Decode(&p)\<close> on a zero \<^verbatim>\<open>Patient\<close>, the first
  call on the decoder. \<^verbatim>\<open>Decode\<close> reads the next JSON value from the body and stores
  it into the struct; it does not look at what follows that value. The model has the
  three parts of the library: the scanner, here a lexer and a parser of the JSON
  grammar; \<^verbatim>\<open>unquote\<close> for string literals; and the rules by which a value is
  stored into the struct.

  The lexer turns the bytes into tokens and stops with \<open>Bad\<close> at the first byte that
  fits no token. White space between tokens is space, tab, carriage return and line
  feed. A string token keeps the bytes between the quotes, escapes undone later; raw
  bytes below 0x20 are refused, and an escape is a backslash with one of
  \<^verbatim>\<open>" \ / b f n r t\<close> or \<^verbatim>\<open>u\<close> and four hex digits. A number is an optional
  minus, a zero or a digit from 1 to 9 with more digits, an optional fraction, an
  optional exponent.
\<close>

datatype tok = LBrace | RBrace | LBrack | RBrack | Colon | Comma
  | Str string | Num string | Lit_true | Lit_false | Lit_null | Bad

datatype lstate = Idle | InStr string | InEsc string | InU nat string
  | NNeg string | N0 string | N1 string | NDot string | NDot0 string
  | NE string | NESign string | NE0 string | InLit string tok

definition jsonSpace :: "char \<Rightarrow> bool" where
  "jsonSpace c \<longleftrightarrow> c \<in> set [CHR 0x20, CHR 0x09, CHR 0x0D, CHR 0x0A]"

definition isHex :: "char \<Rightarrow> bool" where
  "isHex c \<longleftrightarrow>
     isDigit c \<or> (97 \<le> (of_char c :: int) \<and> (of_char c :: int) \<le> 102) \<or>
     (65 \<le> (of_char c :: int) \<and> (of_char c :: int) \<le> 70)"

definition idle_step :: "char \<Rightarrow> tok list \<times> lstate option" where
  "idle_step c =
     (if jsonSpace c then ([], Some Idle)
      else if c = CHR ''{'' then ([LBrace], Some Idle)
      else if c = CHR ''}'' then ([RBrace], Some Idle)
      else if c = CHR ''['' then ([LBrack], Some Idle)
      else if c = CHR '']'' then ([RBrack], Some Idle)
      else if c = CHR '':'' then ([Colon], Some Idle)
      else if c = CHR '','' then ([Comma], Some Idle)
      else if c = CHR 0x22 then ([], Some (InStr []))
      else if c = CHR ''-'' then ([], Some (NNeg [c]))
      else if c = CHR ''0'' then ([], Some (N0 [c]))
      else if isDigit c then ([], Some (N1 [c]))
      else if c = CHR ''t'' then ([], Some (InLit ''rue'' Lit_true))
      else if c = CHR ''f'' then ([], Some (InLit ''alse'' Lit_false))
      else if c = CHR ''n'' then ([], Some (InLit ''ull'' Lit_null))
      else ([], None))"

definition end_number :: "string \<Rightarrow> char \<Rightarrow> tok list \<times> lstate option" where
  "end_number acc c = (case idle_step c of (ts, st) \<Rightarrow> (Num acc # ts, st))"

fun lex_step :: "lstate \<Rightarrow> char \<Rightarrow> tok list \<times> lstate option" where
  "lex_step Idle c = idle_step c"
| "lex_step (InStr acc) c =
     (if c = CHR 0x22 then ([Str acc], Some Idle)
      else if c = CHR 0x5C then ([], Some (InEsc (acc @ [c])))
      else if (of_char c :: int) < 32 then ([], None)
      else ([], Some (InStr (acc @ [c]))))"
| "lex_step (InEsc acc) c =
     (if c \<in> set [CHR ''b'', CHR ''f'', CHR ''n'', CHR ''r'', CHR ''t'', CHR 0x5C, CHR ''/'', CHR 0x22]
      then ([], Some (InStr (acc @ [c])))
      else if c = CHR ''u'' then ([], Some (InU 4 (acc @ [c])))
      else ([], None))"
| "lex_step (InU k acc) c =
     (if \<not> isHex c then ([], None)
      else if k \<le> 1 then ([], Some (InStr (acc @ [c])))
      else ([], Some (InU (k - 1) (acc @ [c]))))"
| "lex_step (NNeg acc) c =
     (if c = CHR ''0'' then ([], Some (N0 (acc @ [c])))
      else if isDigit c then ([], Some (N1 (acc @ [c])))
      else ([], None))"
| "lex_step (N1 acc) c =
     (if isDigit c then ([], Some (N1 (acc @ [c])))
      else if c = CHR ''.'' then ([], Some (NDot (acc @ [c])))
      else if c = CHR ''e'' \<or> c = CHR ''E'' then ([], Some (NE (acc @ [c])))
      else end_number acc c)"
| "lex_step (N0 acc) c =
     (if c = CHR ''.'' then ([], Some (NDot (acc @ [c])))
      else if c = CHR ''e'' \<or> c = CHR ''E'' then ([], Some (NE (acc @ [c])))
      else end_number acc c)"
| "lex_step (NDot acc) c =
     (if isDigit c then ([], Some (NDot0 (acc @ [c]))) else ([], None))"
| "lex_step (NDot0 acc) c =
     (if isDigit c then ([], Some (NDot0 (acc @ [c])))
      else if c = CHR ''e'' \<or> c = CHR ''E'' then ([], Some (NE (acc @ [c])))
      else end_number acc c)"
| "lex_step (NE acc) c =
     (if c = CHR ''+'' \<or> c = CHR ''-'' then ([], Some (NESign (acc @ [c])))
      else if isDigit c then ([], Some (NE0 (acc @ [c])))
      else ([], None))"
| "lex_step (NESign acc) c =
     (if isDigit c then ([], Some (NE0 (acc @ [c]))) else ([], None))"
| "lex_step (NE0 acc) c =
     (if isDigit c then ([], Some (NE0 (acc @ [c]))) else end_number acc c)"
| "lex_step (InLit rest t) c =
     (case rest of
        [] \<Rightarrow> ([], None)
      | x # xs \<Rightarrow>
          if c \<noteq> x then ([], None)
          else if xs = [] then ([t], Some Idle)
          else ([], Some (InLit xs t)))"

fun lex_end :: "lstate \<Rightarrow> tok list" where
  "lex_end Idle = []"
| "lex_end (N0 acc) = [Num acc]"
| "lex_end (N1 acc) = [Num acc]"
| "lex_end (NDot0 acc) = [Num acc]"
| "lex_end (NE0 acc) = [Num acc]"
| "lex_end _ = [Bad]"

fun lex :: "lstate \<Rightarrow> string \<Rightarrow> tok list" where
  "lex st [] = lex_end st"
| "lex st (c # cs) =
     (case lex_step st c of
        (ts, None) \<Rightarrow> ts @ [Bad]
      | (ts, Some st') \<Rightarrow> ts @ lex st' cs)"

text \<open>
  The parser reads one value from the tokens and returns it with the tokens left over.
  It keeps the containers that are open: an array with its elements so far, an object
  with its members so far and the key waiting for its value. As in the library, nesting
  deeper than 10000 is an error.
\<close>

datatype json = JNull | JBool bool | JNum string | JStr string | JArr "json list"
  | JObj "(string \<times> json) list"

datatype frame = FArr "json list" | FObj "(string \<times> json) list" "string option"

datatype expect = XValue | XValueOrEnd | XKeyOrEnd | XKey | XColon | XCommaOrEnd

datatype progress = Failed | Done json | More expect "frame list"

definition maxNestingDepth :: nat where
  "maxNestingDepth = 10000"

fun complete :: "json \<Rightarrow> frame list \<Rightarrow> progress" where
  "complete v [] = Done v"
| "complete v (FArr es # fs) = More XCommaOrEnd (FArr (es @ [v]) # fs)"
| "complete v (FObj ms (Some k) # fs) = More XCommaOrEnd (FObj (ms @ [(k, v)]) None # fs)"
| "complete v (FObj ms None # fs) = Failed"

definition begin_value :: "tok \<Rightarrow> frame list \<Rightarrow> progress" where
  "begin_value t fs =
     (case t of
        LBrace \<Rightarrow> if length fs < maxNestingDepth then More XKeyOrEnd (FObj [] None # fs) else Failed
      | LBrack \<Rightarrow> if length fs < maxNestingDepth then More XValueOrEnd (FArr [] # fs) else Failed
      | Str s \<Rightarrow> complete (JStr s) fs
      | Num s \<Rightarrow> complete (JNum s) fs
      | Lit_true \<Rightarrow> complete (JBool True) fs
      | Lit_false \<Rightarrow> complete (JBool False) fs
      | Lit_null \<Rightarrow> complete JNull fs
      | _ \<Rightarrow> Failed)"

definition begin_key :: "tok \<Rightarrow> frame list \<Rightarrow> progress" where
  "begin_key t fs =
     (case (t, fs) of
        (Str k, FObj ms _ # fs') \<Rightarrow> More XColon (FObj ms (Some k) # fs')
      | _ \<Rightarrow> Failed)"

definition close_frame :: "tok \<Rightarrow> frame list \<Rightarrow> progress" where
  "close_frame t fs =
     (case (t, fs) of
        (RBrack, FArr es # fs') \<Rightarrow> complete (JArr es) fs'
      | (RBrace, FObj ms None # fs') \<Rightarrow> complete (JObj ms) fs'
      | _ \<Rightarrow> Failed)"

fun parse_step :: "expect \<Rightarrow> frame list \<Rightarrow> tok \<Rightarrow> progress" where
  "parse_step XValue fs t = begin_value t fs"
| "parse_step XValueOrEnd fs t = (if t = RBrack then close_frame t fs else begin_value t fs)"
| "parse_step XKeyOrEnd fs t = (if t = RBrace then close_frame t fs else begin_key t fs)"
| "parse_step XKey fs t = begin_key t fs"
| "parse_step XColon fs t = (if t = Colon then More XValue fs else Failed)"
| "parse_step XCommaOrEnd fs t =
     (if t = Comma then
        (case fs of
           FArr es # fs' \<Rightarrow> More XValue fs
         | FObj ms k # fs' \<Rightarrow> More XKey fs
         | [] \<Rightarrow> Failed)
      else close_frame t fs)"

fun parse :: "expect \<Rightarrow> frame list \<Rightarrow> tok list \<Rightarrow> (json \<times> tok list) option" where
  "parse x fs [] = None"
| "parse x fs (t # ts) =
     (case parse_step x fs t of
        Failed \<Rightarrow> None
      | Done v \<Rightarrow> Some (v, ts)
      | More x' fs' \<Rightarrow> parse x' fs' ts)"

text \<open>
  \<open>readValue\<close> is the first value of a body, \<open>None\<close> when the body has none (it is
  empty or white space, or is malformed before its first value ends). A body is valid
  JSON, \<^verbatim>\<open>json.Valid\<close>, when it is one value and white space: no token is left over.
\<close>

definition readValue :: "string \<Rightarrow> (json \<times> tok list) option" where
  "readValue b = parse XValue [] (lex Idle b)"

definition json_Valid :: "string \<Rightarrow> bool" where
  "json_Valid b = (case readValue b of Some (v, []) \<Rightarrow> True | _ \<Rightarrow> False)"

text \<open>
  \<^verbatim>\<open>unquote\<close>: the escapes are replaced by the characters they stand for, a
  \<^verbatim>\<open>\u\<close> escape by the UTF-8 encoding of its code point, two escapes that form a
  surrogate pair by the encoding of the pair's code point, a surrogate without its
  partner by U+FFFD; raw bytes stay, except that a byte that starts no well-formed
  UTF-8 sequence becomes U+FFFD. The lexer has checked the escapes, so the branches
  for a malformed one are not reached.
\<close>

definition byte_in :: "nat \<Rightarrow> nat \<Rightarrow> char \<Rightarrow> bool" where
  "byte_in lo hi c \<longleftrightarrow> lo \<le> (of_char c :: nat) \<and> (of_char c :: nat) \<le> hi"

definition utf8_width :: "string \<Rightarrow> nat" where
  "utf8_width s =
     (case s of
        [] \<Rightarrow> 0
      | c0 # r \<Rightarrow>
          if byte_in 0x00 0x7F c0 then 1
          else if byte_in 0xC2 0xDF c0 then
            (case r of c1 # _ \<Rightarrow> if byte_in 0x80 0xBF c1 then 2 else 0 | _ \<Rightarrow> 0)
          else if byte_in 0xE0 0xEF c0 then
            (case r of
               c1 # c2 # _ \<Rightarrow>
                 if (if c0 = CHR 0xE0 then byte_in 0xA0 0xBF c1
                     else if c0 = CHR 0xED then byte_in 0x80 0x9F c1
                     else byte_in 0x80 0xBF c1) \<and> byte_in 0x80 0xBF c2
                 then 3 else 0
             | _ \<Rightarrow> 0)
          else if byte_in 0xF0 0xF4 c0 then
            (case r of
               c1 # c2 # c3 # _ \<Rightarrow>
                 if (if c0 = CHR 0xF0 then byte_in 0x90 0xBF c1
                     else if c0 = CHR 0xF4 then byte_in 0x80 0x8F c1
                     else byte_in 0x80 0xBF c1) \<and> byte_in 0x80 0xBF c2 \<and> byte_in 0x80 0xBF c3
                 then 4 else 0
             | _ \<Rightarrow> 0)
          else 0)"

definition replacementChar :: string where
  "replacementChar = [CHR 0xEF, CHR 0xBF, CHR 0xBD]"

definition utf8_encode :: "nat \<Rightarrow> string" where
  "utf8_encode r =
     (if r < 0x80 then [char_of r]
      else if r < 0x800 then [char_of (0xC0 + r div 64), char_of (0x80 + r mod 64)]
      else if (0xD800 \<le> r \<and> r \<le> 0xDFFF) \<or> 0x10FFFF < r then replacementChar
      else if r < 0x10000 then
        [char_of (0xE0 + r div 4096), char_of (0x80 + r div 64 mod 64), char_of (0x80 + r mod 64)]
      else
        [char_of (0xF0 + r div 262144), char_of (0x80 + r div 4096 mod 64),
         char_of (0x80 + r div 64 mod 64), char_of (0x80 + r mod 64)])"

definition hexval :: "char \<Rightarrow> nat" where
  "hexval c =
     (if isDigit c then of_char c - 48
      else if byte_in 97 102 c then of_char c - 87
      else of_char c - 55)"

definition getu4 :: "string \<Rightarrow> nat option" where
  "getu4 s =
     (if length s < 6 \<or> take 2 s \<noteq> [CHR 0x5C, CHR ''u''] \<or> \<not> list_all isHex (take 4 (drop 2 s))
      then None
      else Some (foldl (\<lambda>r c. r * 16 + hexval c) 0 (take 4 (drop 2 s))))"

definition escape_char :: "char \<Rightarrow> char" where
  "escape_char e =
     (if e = CHR ''b'' then CHR 0x08
      else if e = CHR ''f'' then CHR 0x0C
      else if e = CHR ''n'' then CHR 0x0A
      else if e = CHR ''r'' then CHR 0x0D
      else if e = CHR ''t'' then CHR 0x09
      else e)"

fun unquote :: "string \<Rightarrow> string" where
  "unquote [] = []"
| "unquote (c # cs) =
     (if c = CHR 0x5C then
        (case cs of
           [] \<Rightarrow> []
         | e # r \<Rightarrow>
             if e \<noteq> CHR ''u'' then escape_char e # unquote r
             else
               (case getu4 (c # cs) of
                  None \<Rightarrow> []
                | Some u \<Rightarrow>
                    if 0xD800 \<le> u \<and> u \<le> 0xDFFF then
                      (case getu4 (drop 4 r) of
                         None \<Rightarrow> replacementChar @ unquote (drop 4 r)
                       | Some u2 \<Rightarrow>
                           if u \<le> 0xDBFF \<and> 0xDC00 \<le> u2 \<and> u2 \<le> 0xDFFF
                           then utf8_encode (0x10000 + (u - 0xD800) * 0x400 + (u2 - 0xDC00))
                                  @ unquote (drop 10 r)
                           else replacementChar @ unquote (drop 4 r))
                    else utf8_encode u @ unquote (drop 4 r)))
      else if byte_in 0x00 0x7F c then c # unquote cs
      else if utf8_width (c # cs) = 0 then replacementChar @ unquote cs
      else take (utf8_width (c # cs)) (c # cs) @ unquote (drop (utf8_width (c # cs) - 1) cs))"

text \<open>
  A key of the object names the field whose JSON name it equals under Unicode simple
  case folding (\<^verbatim>\<open>bytes.EqualFold\<close>): for a name of small ASCII letters, each letter
  matches itself and its capital, \<^verbatim>\<open>s\<close> also U+017F and \<^verbatim>\<open>k\<close> also U+212A.
\<close>

fun equalFold :: "string \<Rightarrow> string \<Rightarrow> bool" where
  "equalFold [] key = (key = [])"
| "equalFold (c # cs) key =
     (case key of
        [] \<Rightarrow> False
      | k # ks \<Rightarrow>
          if k = c \<or> (of_char k :: nat) + 32 = of_char c then equalFold cs ks
          else if c = CHR ''s'' \<and> take 2 key = [CHR 0xC5, CHR 0xBF] then equalFold cs (drop 1 ks)
          else if c = CHR ''k'' \<and> take 3 key = [CHR 0xE2, CHR 0x84, CHR 0xAA]
            then equalFold cs (drop 2 ks)
          else False)"

text \<open>
  Storing a value into a field. \<^verbatim>\<open>null\<close> leaves the field as it is. A string field
  takes a JSON string; the \<^verbatim>\<open>int64\<close> field takes a number whose literal
  \<^verbatim>\<open>strconv.ParseInt\<close> accepts. Any other value is an
  \<^verbatim>\<open>UnmarshalTypeError\<close>: the library goes on with the next member and returns the
  error at the end, so the result is an error. Members with other keys are skipped and
  a later member overwrites an earlier one. At the top, \<^verbatim>\<open>null\<close> stores nothing, an
  object stores its members, and any other value is an error.
\<close>

definition store_string :: "json \<Rightarrow> string \<Rightarrow> string option" where
  "store_string v old =
     (case v of JNull \<Rightarrow> Some old | JStr s \<Rightarrow> Some (unquote s) | _ \<Rightarrow> None)"

definition store_int64 :: "json \<Rightarrow> int64 \<Rightarrow> int64 option" where
  "store_int64 v old =
     (case v of
        JNull \<Rightarrow> Some old
      | JNum s \<Rightarrow> (case ParseInt s of Inr n \<Rightarrow> Some n | Inl e \<Rightarrow> None)
      | _ \<Rightarrow> None)"

definition set_field :: "string \<times> json \<Rightarrow> Patient \<Rightarrow> Patient option" where
  "set_field kv p =
     (let key = unquote (fst kv); v = snd kv in
      if equalFold ''id'' key then map_option (\<lambda>x. p\<lparr>ID := x\<rparr>) (store_int64 v (ID p))
      else if equalFold ''fullname'' key then
        map_option (\<lambda>x. p\<lparr>Fullname := x\<rparr>) (store_string v (Fullname p))
      else if equalFold ''sex'' key then map_option (\<lambda>x. p\<lparr>Sex := x\<rparr>) (store_string v (Sex p))
      else if equalFold ''birthdate'' key then
        map_option (\<lambda>x. p\<lparr>Birthdate := x\<rparr>) (store_string v (Birthdate p))
      else if equalFold ''address'' key then
        map_option (\<lambda>x. p\<lparr>Address := x\<rparr>) (store_string v (Address p))
      else Some p)"

fun set_fields :: "(string \<times> json) list \<Rightarrow> Patient \<Rightarrow> Patient option" where
  "set_fields [] p = Some p"
| "set_fields (kv # kvs) p =
     (case set_field kv p of None \<Rightarrow> None | Some p' \<Rightarrow> set_fields kvs p')"

definition unmarshal :: "json \<Rightarrow> Patient option" where
  "unmarshal v =
     (case v of JNull \<Rightarrow> Some zeroPatient | JObj ms \<Rightarrow> set_fields ms zeroPatient | _ \<Rightarrow> None)"

definition json_Decode :: "string \<Rightarrow> Patient option" where
  "json_Decode b = (case readValue b of None \<Rightarrow> None | Some (v, rest) \<Rightarrow> unmarshal v)"

section \<open>The HTTP layer\<close>

definition writeJSON :: "mem \<Rightarrow> int \<Rightarrow> jsonable \<Rightarrow> ResponseWriter \<Rightarrow> ResponseWriter option" where
  "writeJSON m code v w =
     (case WriteHeader code (Header_Set ''Content-Type'' ''application/json'' w) of
        None \<Rightarrow> None
      | Some w1 \<Rightarrow> Some (Write (Encode m v) w1))"

definition newResponseError :: "int \<Rightarrow> string \<Rightarrow> ResponseError" where
  "newResponseError code msg =
     (let st = StatusText code;
          st = (if st = [] then ''Error'' else st)
      in \<lparr>err_Code = code, err_Status = st, Error = msg\<rparr>)"

definition writeError :: "mem \<Rightarrow> ResponseError \<Rightarrow> ResponseWriter \<Rightarrow> ResponseWriter option" where
  "writeError m respErr w =
     (let e1 = (if err_Code respErr = 0 then respErr\<lparr>err_Code := 500\<rparr> else respErr);
          e2 = (if err_Status e1 = [] then e1\<lparr>err_Status := StatusText (err_Code e1)\<rparr> else e1)
      in writeJSON m (err_Code e2) (JError e2) w)"

text \<open>
  A request, as far as the handlers read it. \<^verbatim>\<open>json.NewDecoder(r.Body).Decode(&p)\<close>
  on a zero \<^verbatim>\<open>Patient\<close> is the library's: the handlers take it as the parameter
  \<open>decode\<close>, which maps the body to the decoded struct, or to \<open>None\<close> when \<^verbatim>\<open>Decode\<close>
  returns an error. In the program it is \<open>json_Decode\<close>.
\<close>

record Request =
  Method :: string
  Path :: string
  Body :: string

type_synonym decoder = "string \<Rightarrow> Patient option"

text \<open>
  A handler gets the request, the response writer and the store, and leaves the writer and
  the store as it changed them; \<open>None\<close> is a panic.
\<close>

type_synonym handler = "Request \<Rightarrow> ResponseWriter \<times> world \<Rightarrow> (ResponseWriter \<times> world) option"

definition respond :: "world \<Rightarrow> ResponseWriter option \<Rightarrow> (ResponseWriter \<times> world) option" where
  "respond st r = map_option (\<lambda>w. (w, st)) r"

text \<open>The handler registered for \<^verbatim>\<open>/patients\<close>.\<close>

definition patients_handler :: "growth \<Rightarrow> decoder \<Rightarrow> handler" where
  "patients_handler grow decode r x =
     (let (w, st) = x in
      if Method r = ''GET'' then
        (let (listed, st1) = Store_List st
         in respond st1 (writeJSON (fst st1) 200 (JResponse listed) w))
      else if Method r = ''POST'' then
        (case decode (Body r) of
           None \<Rightarrow>
             respond st (writeError (fst st) (newResponseError 400 ''invalid JSON body'') w)
         | Some p \<Rightarrow>
             if TrimSpace (Fullname p) = [] \<or> TrimSpace (Sex p) = [] \<or>
                TrimSpace (Birthdate p) = [] \<or> TrimSpace (Address p) = []
             then respond st (writeError (fst st)
                    (newResponseError 400 ''fullname, sex, birthdate and address are required'') w)
             else
               (let (created, st1) = Store_Create grow p st
                in respond st1 (writeJSON (fst st1) 201 (JResponse created) w)))
      else respond st (writeError (fst st) (newResponseError 405 ''method not allowed'') w))"

text \<open>The handler registered for \<^verbatim>\<open>/patients/\<close>.\<close>

definition idStr_of :: "Request \<Rightarrow> string" where
  "idStr_of r = TrimSuffix (TrimPrefix (Path r) ''/patients/'') ''/''"

definition patient_handler :: "growth \<Rightarrow> decoder \<Rightarrow> handler" where
  "patient_handler grow decode r x =
     (let (w, st) = x;
          idStr = idStr_of r
      in case ParseInt idStr of
           Inl err \<Rightarrow> respond st (writeError (fst st) (newResponseError 400 ''invalid id'') w)
         | Inr i \<Rightarrow>
             if idStr = [] then
               respond st (writeError (fst st) (newResponseError 400 ''invalid id'') w)
             else if Method r = ''GET'' then
               (let (p, ok) = Store_Get i st in
                if \<not> ok then
                  respond st (writeError (fst st) (newResponseError 404 ''patient not found'') w)
                else respond st (writeJSON (fst st) 200 (JResponse p) w))
             else if Method r = ''PUT'' then
               (case decode (Body r) of
                  None \<Rightarrow>
                    respond st (writeError (fst st) (newResponseError 400 ''invalid JSON body'') w)
                | Some upd \<Rightarrow>
                    if TrimSpace (Fullname upd) = [] \<and> TrimSpace (Sex upd) = [] \<and>
                       TrimSpace (Birthdate upd) = [] \<and> TrimSpace (Address upd) = []
                    then respond st (writeError (fst st)
                           (newResponseError 400 ''at least one field required to update'') w)
                    else
                      (let ((updated, ok), st1) = Store_Update i upd st in
                       if \<not> ok then
                         respond st1 (writeError (fst st1)
                           (newResponseError 404 ''patient not found'') w)
                       else respond st1 (writeJSON (fst st1) 200 (JResponse updated) w)))
             else if Method r = ''DELETE'' then
               (let (ok, st1) = Store_Delete grow i st in
                if \<not> ok then
                  respond st1 (writeError (fst st1) (newResponseError 404 ''patient not found'') w)
                else respond st1 (WriteHeader 204 w))
             else respond st (writeError (fst st) (newResponseError 405 ''method not allowed'') w))"

text \<open>The middleware: three header fields, then either the answer to a pre-flight or \<open>next\<close>.\<close>

definition corsMiddleware :: "handler \<Rightarrow> handler" where
  "corsMiddleware next r x =
     (let (w, st) = x;
          w1 = Header_Set ''Access-Control-Allow-Origin'' ''*'' w;
          w2 = Header_Set ''Access-Control-Allow-Methods'' ''GET, POST, PUT, DELETE, OPTIONS'' w1;
          w3 = Header_Set ''Access-Control-Allow-Headers'' ''Content-Type, Authorization'' w2
      in if Method r = ''OPTIONS'' then respond st (WriteHeader 204 w3)
         else next r (w3, st))"

text \<open>The store as \<^verbatim>\<open>main\<close> seeds it, starting from an empty memory.\<close>

definition alice :: Patient where
  "alice = \<lparr>ID = 0, Fullname = ''Alice Example'', Sex = ''F'', Birthdate = ''1990-01-01'',
            Address = ''123 A St''\<rparr>"

definition bob :: Patient where
  "bob = \<lparr>ID = 0, Fullname = ''Bob Example'', Sex = ''M'', Birthdate = ''1988-05-05'',
          Address = ''456 B Ave''\<rparr>"

definition main_store :: "growth \<Rightarrow> world" where
  "main_store grow =
     (let st = NewStore [];
          (_, st1) = Store_Create grow alice st;
          (_, st2) = Store_Create grow bob st1
      in st2)"

section \<open>Vocabulary of the properties\<close>

text \<open>The patients the store holds, in store order.\<close>

definition patients :: "world \<Rightarrow> Patient list" where
  "patients w = elems (fst w) (users (snd w))"

text \<open>
  The store's slice points to an allocated array, of the slice's capacity, and the length
  is within the capacity: what Go guarantees of every slice.
\<close>

definition store_ok :: "world \<Rightarrow> bool" where
  "store_ok w \<longleftrightarrow>
     arr (users (snd w)) < length (fst w) \<and>
     length (fst w ! arr (users (snd w))) = cap (users (snd w)) \<and>
     len (users (snd w)) \<le> cap (users (snd w))"

text \<open>
  What a store method may do to the memory: allocate, and write to the store's own
  array; the store's slice stays on its array or moves to one allocated since.
\<close>

definition frame :: "world \<Rightarrow> world \<Rightarrow> bool" where
  "frame w w' \<longleftrightarrow>
     length (fst w) \<le> length (fst w') \<and>
     (\<forall>a \<in> set [0 ..< length (fst w)].
        a \<noteq> arr (users (snd w)) \<longrightarrow> fst w' ! a = fst w ! a) \<and>
     (arr (users (snd w')) = arr (users (snd w)) \<or> length (fst w) \<le> arr (users (snd w')))"

text \<open>Sequences of calls to the store's methods, with what each call returned.\<close>

datatype call = CallList | CallGet int64 | CallCreate Patient | CallUpdate int64 Patient
  | CallDelete int64

datatype returned = RetList Response | RetGet Response bool | RetCreate Response
  | RetUpdate Response bool | RetDelete bool

fun exec :: "growth \<Rightarrow> call \<Rightarrow> world \<Rightarrow> returned \<times> world" where
  "exec grow CallList w = (let (r, w') = Store_List w in (RetList r, w'))"
| "exec grow (CallGet i) w = (let (r, ok) = Store_Get i w in (RetGet r ok, w))"
| "exec grow (CallCreate p) w = (let (r, w') = Store_Create grow p w in (RetCreate r, w'))"
| "exec grow (CallUpdate i upd) w =
     (let ((r, ok), w') = Store_Update i upd w in (RetUpdate r ok, w'))"
| "exec grow (CallDelete i) w = (let (ok, w') = Store_Delete grow i w in (RetDelete ok, w'))"

fun run :: "growth \<Rightarrow> call list \<Rightarrow> world \<Rightarrow> returned list \<times> world" where
  "run grow [] w = ([], w)"
| "run grow (c # cs) w =
     (let (r, w1) = exec grow c w;
          (rs, w2) = run grow cs w1
      in (r # rs, w2))"

text \<open>The ids the \<^verbatim>\<open>Create\<close> calls of a run returned, in order.\<close>

fun created_ids :: "returned list \<Rightarrow> int64 list" where
  "created_ids [] = []"
| "created_ids (RetCreate r # rs) =
     (case Data r of PatientVal p \<Rightarrow> ID p # created_ids rs | _ \<Rightarrow> created_ids rs)"
| "created_ids (_ # rs) = created_ids rs"

fun creations :: "call list \<Rightarrow> nat" where
  "creations [] = 0"
| "creations (CallCreate p # cs) = Suc (creations cs)"
| "creations (_ # cs) = creations cs"

text \<open>A third patient, and the seeded store with that patient created, for worked examples.\<close>

definition carol :: Patient where
  "carol = \<lparr>ID = 0, Fullname = ''Carol Example'', Sex = ''F'', Birthdate = ''1975-03-03'',
            Address = ''789 C Rd''\<rparr>"

definition three_store :: "growth \<Rightarrow> world" where
  "three_store grow = snd (Store_Create grow carol (main_store grow))"

text \<open>
  The writer after a JSON response written on \<open>w\<close>: the content type, the status and
  the encoded value appended to the body.
\<close>

definition json_sent :: "ResponseWriter \<Rightarrow> int \<Rightarrow> wire \<Rightarrow> ResponseWriter" where
  "json_sent w code x =
     w\<lparr>header := AList.update ''Content-Type'' ''application/json'' (header w),
       status := Some code, body := body w @ [x]\<rparr>"

text \<open>Request bodies for worked examples, and the patient two of them decode to.\<close>

definition erin :: Patient where
  "erin = \<lparr>ID = 0, Fullname = ''Erin Example'', Sex = ''F'', Birthdate = ''1999-09-09'',
           Address = ''5 E St''\<rparr>"

definition body_erin :: string where
  \<open>body_erin =
     ''{"fullname":"Erin Example","sex":"F","birthdate":"1999-09-09","address":"5 E St"}''\<close>

definition body_trailing :: string where
  \<open>body_trailing = body_erin @ '' trailing''\<close>

definition body_truncated :: string where
  \<open>body_truncated = ''{"fullname":"Erin Example","sex":''\<close>

definition body_blank_name :: string where
  \<open>body_blank_name = ''{"fullname":"","sex":"F","birthdate":"2000-01-01","address":"x"}''\<close>

definition body_wrong_type :: string where
  \<open>body_wrong_type = ''{"fullname":5,"sex":"F","birthdate":"1999-09-09","address":"5 E St"}''\<close>

text \<open>A patient whose fields carry white space around them.\<close>

definition dana :: Patient where
  "dana = \<lparr>ID = 42, Fullname = ''  Dana Example '', Sex = '' F'', Birthdate = ''2001-02-03 '',
           Address = [CHR 0x09] @ ''1 D Way''\<rparr>"

text \<open>
  The ids a store holds after \<open>n\<close> creations on a new store: the counter stands at
  \<open>n + 1\<close>, the ids held are distinct and are among the first \<open>n\<close> issued.
\<close>

definition ids_issued :: "nat \<Rightarrow> world \<Rightarrow> bool" where
  "ids_issued n w \<longleftrightarrow>
     nextID (snd w) = word_of_nat (Suc n) \<and> distinct (map ID (patients w)) \<and>
     set (map ID (patients w)) \<subseteq> set (map word_of_nat [1 ..< Suc n])"

section \<open>The store's methods on the patients held\<close>

text \<open>
  Each method is characterised on \<open>patients\<close>, for a store whose slice is well formed;
  \<open>store_ok\<close> holds of the new store and every method keeps it.
\<close>

lemma length_patients: "store_ok w \<Longrightarrow> length (patients w) = len (users (snd w))"
  by (simp add: store_ok_def patients_def elems_def)

lemma NewStore_ok: "store_ok (NewStore m)"
  by (simp add: NewStore_def make_slice_def store_ok_def)

lemma NewStore_patients: "patients (NewStore m) = []"
  by (simp add: NewStore_def make_slice_def patients_def elems_def)

lemma NewStore_nextID: "nextID (snd (NewStore m)) = 1"
  by (simp add: NewStore_def make_slice_def)

lemma append_slice_effect:
  assumes "arr dst < length m" "length (m ! arr dst) = cap dst" "len dst \<le> cap dst"
    and "append_slice grow dst xs m = (u, m')"
  shows "elems m' u = elems m dst @ xs"
    and "arr u < length m'" and "length (m' ! arr u) = cap u" and "len u \<le> cap u"
    and "length m \<le> length m'"
    and "\<forall>a < length m. a \<noteq> arr dst \<longrightarrow> m' ! a = m ! a"
    and "arr u = arr dst \<or> length m \<le> arr u"
  using assms
  by (auto simp: append_slice_def Let_def elems_def write_at_def nth_append split: if_splits)

lemma first_index_None: "first_index i ps = None \<longleftrightarrow> (\<forall>p \<in> set ps. ID p \<noteq> i)"
  by (induction ps) auto

lemma first_index_Some:
  "first_index i ps = Some k \<Longrightarrow>
     k < length ps \<and> ID (ps ! k) = i \<and> (\<forall>j < k. ID (ps ! j) \<noteq> i)"
proof (induction ps arbitrary: k)
  case Nil
  then show ?case by simp
next
  case (Cons p ps)
  show ?case
  proof (cases "ID p = i")
    case True
    with Cons.prems show ?thesis by simp
  next
    case False
    with Cons.prems obtain k' where k': "first_index i ps = Some k'" "k = Suc k'"
      by auto
    from Cons.IH [OF k'(1)] False k'(2) show ?thesis
      by (auto simp: nth_Cons split: nat.splits)
  qed
qed

lemma first_index_exists: "p \<in> set ps \<Longrightarrow> ID p = i \<Longrightarrow> \<exists>k. first_index i ps = Some k"
  using first_index_None [of i ps] by (cases "first_index i ps") auto

lemma Get_loop_first_index:
  "Get_loop i ps =
     (case first_index i ps of
        None \<Rightarrow> (zeroResponse, False)
      | Some k \<Rightarrow> (\<lparr>Code = 200, Status = ''Ok'', Data = PatientVal (ps ! k)\<rparr>, True))"
  by (induction ps) (auto split: option.splits)

lemma Get_missing: "\<forall>p \<in> set (patients w). ID p \<noteq> i \<Longrightarrow> Store_Get i w = (zeroResponse, False)"
  using first_index_None [of i "patients w"]
  by (cases w) (simp add: Store_Get_def Get_loop_first_index patients_def)

lemma Create_effect:
  assumes ok: "store_ok w"
  shows "patients (snd (Store_Create grow p w)) = patients w @ [p\<lparr>ID := nextID (snd w)\<rparr>]"
    and "store_ok (snd (Store_Create grow p w))"
    and "frame w (snd (Store_Create grow p w))"
proof -
  obtain m s where w: "w = (m, s)" by (cases w)
  obtain u m' where a: "append_slice grow (users s) [p\<lparr>ID := nextID s\<rparr>] m = (u, m')"
    by (cases "append_slice grow (users s) [p\<lparr>ID := nextID s\<rparr>] m")
  have c: "Store_Create grow p (m, s) =
      (\<lparr>Code = 201, Status = ''Created'', Data = PatientVal (p\<lparr>ID := nextID s\<rparr>)\<rparr>,
       (m', s\<lparr>nextID := nextID s + 1, users := u\<rparr>))"
    using a by (simp add: Store_Create_def)
  from ok have pre: "arr (users s) < length m" "length (m ! arr (users s)) = cap (users s)"
    "len (users s) \<le> cap (users s)"
    by (simp_all add: store_ok_def w)
  note ap = append_slice_effect [OF pre a]
  show "patients (snd (Store_Create grow p w)) = patients w @ [p\<lparr>ID := nextID (snd w)\<rparr>]"
    using ap(1) by (simp add: w c patients_def)
  show "store_ok (snd (Store_Create grow p w))"
    using ap(2,3,4) by (simp add: w c store_ok_def)
  show "frame w (snd (Store_Create grow p w))"
    using ap(5,6,7) by (simp add: w c frame_def)
qed

lemma Create_nextID: "nextID (snd (snd (Store_Create grow p w))) = nextID (snd w) + 1"
  by (simp add: Store_Create_def Let_def split: prod.splits)

lemma Create_response:
  "fst (Store_Create grow p w) =
     \<lparr>Code = 201, Status = ''Created'', Data = PatientVal (p\<lparr>ID := nextID (snd w)\<rparr>)\<rparr>"
  by (simp add: Store_Create_def Let_def split: prod.splits)

lemma Update_found:
  assumes ok: "store_ok w" and k: "first_index i (patients w) = Some k"
  shows "fst (Store_Update i upd w) =
           (\<lparr>Code = 200, Status = ''Ok'', Data = PatientVal (apply_update upd (patients w ! k))\<rparr>, True)"
    and "patients (snd (Store_Update i upd w)) = (patients w)[k := apply_update upd (patients w ! k)]"
    and "snd (snd (Store_Update i upd w)) = snd w"
    and "store_ok (snd (Store_Update i upd w))"
    and "frame w (snd (Store_Update i upd w))"
proof -
  obtain m s where w: "w = (m, s)" by (cases w)
  from first_index_Some [OF k] ok have kl: "k < len (users s)"
    by (simp add: length_patients w)
  from ok have pre: "arr (users s) < length m" "length (m ! arr (users s)) = cap (users s)"
    "len (users s) \<le> cap (users s)"
    by (simp_all add: store_ok_def w)
  have nth: "(m ! arr (users s)) ! k = elems m (users s) ! k"
    using kl by (simp add: elems_def)
  have k': "first_index i (elems m (users s)) = Some k"
    using k by (simp add: patients_def w)
  have u: "Store_Update i upd (m, s) =
      ((\<lparr>Code = 200, Status = ''Ok'', Data = PatientVal (apply_update upd (elems m (users s) ! k))\<rparr>, True),
       (m[arr (users s) := (m ! arr (users s))[k := apply_update upd (elems m (users s) ! k)]], s))"
    by (simp add: Store_Update_def k' nth Let_def)
  show "fst (Store_Update i upd w) =
           (\<lparr>Code = 200, Status = ''Ok'', Data = PatientVal (apply_update upd (patients w ! k))\<rparr>, True)"
    by (simp add: w u patients_def)
  show "patients (snd (Store_Update i upd w)) = (patients w)[k := apply_update upd (patients w ! k)]"
    using pre by (simp add: w u patients_def) (simp add: elems_def take_update_swap)
  show "snd (snd (Store_Update i upd w)) = snd w"
    by (simp add: w u)
  show "store_ok (snd (Store_Update i upd w))"
    using pre by (simp add: w u store_ok_def)
  show "frame w (snd (Store_Update i upd w))"
    by (simp add: w u frame_def)
qed

lemma Update_missing:
  "first_index i (patients w) = None \<Longrightarrow> Store_Update i upd w = ((zeroResponse, False), w)"
  by (cases w) (simp add: Store_Update_def patients_def)

lemma Delete_found:
  assumes ok: "store_ok w" and k: "first_index i (patients w) = Some k"
  shows "fst (Store_Delete grow i w) = True"
    and "patients (snd (Store_Delete grow i w)) = take k (patients w) @ drop (Suc k) (patients w)"
    and "store_ok (snd (Store_Delete grow i w))"
    and "frame w (snd (Store_Delete grow i w))"
proof -
  obtain m s where w: "w = (m, s)" by (cases w)
  let ?dst = "(users s)\<lparr>len := k\<rparr>"
  let ?xs = "drop (k + 1) (elems m (users s))"
  from first_index_Some [OF k] ok have kl: "k < len (users s)"
    by (simp add: length_patients w)
  from ok have pre0: "arr (users s) < length m" "length (m ! arr (users s)) = cap (users s)"
    "len (users s) \<le> cap (users s)"
    by (simp_all add: store_ok_def w)
  have pre: "arr ?dst < length m" "length (m ! arr ?dst) = cap ?dst" "len ?dst \<le> cap ?dst"
    using pre0 kl by simp_all
  obtain u m' where a: "append_slice grow ?dst ?xs m = (u, m')"
    by (cases "append_slice grow ?dst ?xs m")
  note ap = append_slice_effect [OF pre a]
  have d: "Store_Delete grow i (m, s) = (True, (m', s\<lparr>users := u\<rparr>))"
    using k a by (simp add: Store_Delete_def w patients_def)
  have e: "elems m ?dst = take k (elems m (users s))"
    using kl by (simp add: elems_def min_def)
  show "fst (Store_Delete grow i w) = True" by (simp add: w d)
  show "patients (snd (Store_Delete grow i w)) = take k (patients w) @ drop (Suc k) (patients w)"
    using ap(1) e by (simp add: w d patients_def)
  show "store_ok (snd (Store_Delete grow i w))"
    using ap(2,3,4) by (simp add: w d store_ok_def)
  show "frame w (snd (Store_Delete grow i w))"
    using ap(5,6,7) by (simp add: w d frame_def)
qed

lemma Delete_missing:
  "first_index i (patients w) = None \<Longrightarrow> Store_Delete grow i w = (False, w)"
  by (cases w) (simp add: Store_Delete_def patients_def)

lemma Delete_nextID: "nextID (snd (snd (Store_Delete grow i w))) = nextID (snd w)"
  by (cases w) (simp add: Store_Delete_def Let_def split: option.splits prod.splits)

lemma List_effect:
  assumes ok: "store_ok w"
  shows "Store_List w =
           (\<lparr>Code = 200, Status = ''Ok'',
             Data = PatientSlice \<lparr>arr = length (fst w), len = len (users (snd w)),
                                  cap = len (users (snd w))\<rparr>\<rparr>,
            (fst w @ [patients w], snd w))"
proof -
  obtain m s where w: "w = (m, s)" by (cases w)
  from ok have pre: "arr (users s) < length m" "length (m ! arr (users s)) = cap (users s)"
    "len (users s) \<le> cap (users s)"
    by (simp_all add: store_ok_def w)
  then show ?thesis
    by (simp add: w Store_List_def make_slice_def copy_slice_def Let_def elems_def
        write_at_def nth_append patients_def)
qed

lemma main_store_ok: "store_ok (main_store grow)"
  unfolding main_store_def Let_def
  by (simp add: split_def Create_effect(2) NewStore_ok)

lemma main_store_patients: "patients (main_store grow) = [alice\<lparr>ID := 1\<rparr>, bob\<lparr>ID := 2\<rparr>]"
  unfolding main_store_def Let_def
  by (simp add: split_def Create_effect(1,2) NewStore_ok NewStore_patients Create_nextID
      NewStore_nextID)

lemma main_store_nextID: "nextID (snd (main_store grow)) = 3"
  unfolding main_store_def Let_def
  by (simp add: split_def Create_nextID NewStore_nextID)

lemma apply_update_fields:
  "apply_update upd p =
     p\<lparr>Fullname := (if Fullname upd = [] then Fullname p else Fullname upd),
       Sex := (if Sex upd = [] then Sex p else Sex upd),
       Birthdate := (if Birthdate upd = [] then Birthdate p else Birthdate upd),
       Address := (if Address upd = [] then Address p else Address upd)\<rparr>"
  by (simp add: apply_update_def Let_def)

section \<open>Runs of calls\<close>

lemma frame_refl: "frame w w"
  by (simp add: frame_def)

lemma exec_ok_frame:
  assumes ok: "store_ok w"
  shows "store_ok (snd (exec grow c w)) \<and> frame w (snd (exec grow c w))"
proof (cases c)
  case CallList
  from ok have "arr (users (snd w)) < length (fst w)" by (simp add: store_ok_def)
  with ok show ?thesis
    by (simp add: CallList List_effect [OF ok] store_ok_def frame_def nth_append)
next
  case (CallGet i)
  with ok show ?thesis by (simp add: split_def Let_def frame_refl)
next
  case (CallCreate p)
  with Create_effect(2,3) [OF ok] show ?thesis by (simp add: split_def Let_def)
next
  case (CallUpdate i upd)
  show ?thesis
  proof (cases "first_index i (patients w)")
    case None
    with ok show ?thesis by (simp add: CallUpdate Update_missing frame_refl)
  next
    case (Some k)
    with Update_found(4,5) [OF ok Some] show ?thesis by (simp add: CallUpdate split_def Let_def)
  qed
next
  case (CallDelete i)
  show ?thesis
  proof (cases "first_index i (patients w)")
    case None
    with ok show ?thesis by (simp add: CallDelete Delete_missing frame_refl)
  next
    case (Some k)
    with Delete_found(3,4) [OF ok Some] show ?thesis by (simp add: CallDelete split_def Let_def)
  qed
qed

lemma exec_nextID:
  "nextID (snd (snd (exec grow c w))) =
     (case c of CallCreate p \<Rightarrow> nextID (snd w) + 1 | _ \<Rightarrow> nextID (snd w))"
proof (cases c)
  case CallList
  then show ?thesis by (cases w) (simp add: Store_List_def Let_def split_def Let_def)
next
  case (CallGet i)
  then show ?thesis by (simp add: split_def Let_def)
next
  case (CallCreate p)
  then show ?thesis by (simp add: split_def Let_def Create_nextID)
next
  case (CallUpdate i upd)
  then show ?thesis
    by (cases w) (simp add: split_def Let_def Store_Update_def Let_def split: option.splits)
next
  case (CallDelete i)
  then show ?thesis by (simp add: split_def Let_def Delete_nextID)
qed

lemma run_created_ids:
  "created_ids (fst (run grow cs w)) = map (\<lambda>k. nextID (snd w) + of_nat k) [0 ..< creations cs]"
proof (induction cs arbitrary: w)
  case Nil
  show ?case by simp
next
  case (Cons c cs)
  note IH = Cons.IH [of "snd (exec grow c w)"]
  show ?case
  proof (cases c)
    case (CallCreate p)
    have n: "nextID (snd (snd (exec grow c w))) = nextID (snd w) + 1"
      by (subst exec_nextID) (simp add: CallCreate)
    have "created_ids (fst (run grow (c # cs) w)) =
            nextID (snd w) # created_ids (fst (run grow cs (snd (exec grow c w))))"
      by (simp add: CallCreate split_def Let_def Create_response)
    also have "\<dots> = nextID (snd w) # map (\<lambda>k. nextID (snd w) + 1 + of_nat k) [0 ..< creations cs]"
      by (simp only: IH n)
    also have "\<dots> = map (\<lambda>k. nextID (snd w) + of_nat k) [0 ..< Suc (creations cs)]"
      by (simp only: map_upt_Suc) (simp add: add.assoc)
    finally show ?thesis by (simp add: CallCreate)
  next
    case CallList
    have s: "created_ids (fst (run grow (c # cs) w)) =
               created_ids (fst (run grow cs (snd (exec grow c w))))"
      by (simp add: CallList split_def Let_def)
    have n: "nextID (snd (snd (exec grow c w))) = nextID (snd w)"
      by (subst exec_nextID) (simp add: CallList)
    show ?thesis unfolding s IH n by (simp add: CallList)
  next
    case (CallGet i)
    have s: "created_ids (fst (run grow (c # cs) w)) =
               created_ids (fst (run grow cs (snd (exec grow c w))))"
      by (simp add: CallGet split_def Let_def)
    have n: "nextID (snd (snd (exec grow c w))) = nextID (snd w)"
      by (subst exec_nextID) (simp add: CallGet)
    show ?thesis unfolding s IH n by (simp add: CallGet)
  next
    case (CallUpdate i upd)
    have s: "created_ids (fst (run grow (c # cs) w)) =
               created_ids (fst (run grow cs (snd (exec grow c w))))"
      by (simp add: CallUpdate split_def Let_def)
    have n: "nextID (snd (snd (exec grow c w))) = nextID (snd w)"
      by (subst exec_nextID) (simp add: CallUpdate)
    show ?thesis unfolding s IH n by (simp add: CallUpdate)
  next
    case (CallDelete i)
    have s: "created_ids (fst (run grow (c # cs) w)) =
               created_ids (fst (run grow cs (snd (exec grow c w))))"
      by (simp add: CallDelete split_def Let_def)
    have n: "nextID (snd (snd (exec grow c w))) = nextID (snd w)"
      by (subst exec_nextID) (simp add: CallDelete)
    show ?thesis unfolding s IH n by (simp add: CallDelete)
  qed
qed

lemma sint_of_nat_64: "n < 2 ^ 63 \<Longrightarrow> sint (word_of_nat n :: int64) = int n"
  by (simp add: signed_of_nat signed_take_bit_int_eq_self)

lemma map_shift_upt: "map (\<lambda>k. f (Suc k)) [0 ..< n] = map f [1 ..< Suc n]"
  by (induction n) simp_all

lemma run_preserves:
  assumes "store_ok w" and "a < length (fst w)" and "arr (users (snd w)) \<noteq> a"
  shows "store_ok (snd (run grow cs w)) \<and> a < length (fst (snd (run grow cs w))) \<and>
         arr (users (snd (snd (run grow cs w)))) \<noteq> a \<and>
         fst (snd (run grow cs w)) ! a = fst w ! a"
  using assms
proof (induction cs arbitrary: w)
  case Nil
  then show ?case by simp
next
  case (Cons c cs)
  let ?w1 = "snd (exec grow c w)"
  from exec_ok_frame [OF Cons.prems(1), of grow c]
  have ok1: "store_ok ?w1" and fr: "frame w ?w1" by simp_all
  from fr Cons.prems(2,3) have a1: "a < length (fst ?w1)" "arr (users (snd ?w1)) \<noteq> a"
    and same: "fst ?w1 ! a = fst w ! a"
    by (auto simp: frame_def)
  from Cons.IH [OF ok1 a1] same show ?case
    by (simp add: split_def Let_def)
qed

lemma removed_id_absent:
  assumes "distinct (map ID ps)" and "k < length ps"
  shows "\<forall>p \<in> set (take k ps @ drop (Suc k) ps). ID p \<noteq> ID (ps ! k)"
proof -
  from assms(2) have ps: "ps = take k ps @ ps ! k # drop (Suc k) ps"
    by (simp add: id_take_nth_drop)
  have "distinct (map ID (take k ps @ ps ! k # drop (Suc k) ps))"
    using assms(1) ps by simp
  then have "ID (ps ! k) \<notin> ID ` set (take k ps)" "ID (ps ! k) \<notin> ID ` set (drop (Suc k) ps)"
    by simp_all
  then show ?thesis by (fastforce simp: image_iff)
qed

lemma three_store_ok: "store_ok (three_store grow)"
  by (simp add: three_store_def Create_effect(2) main_store_ok)

lemma three_store_patients:
  "patients (three_store grow) = [alice\<lparr>ID := 1\<rparr>, bob\<lparr>ID := 2\<rparr>, carol\<lparr>ID := 3\<rparr>]"
  by (simp add: three_store_def Create_effect(1) main_store_ok main_store_patients
      main_store_nextID)

subsection \<open>Ids of a store reached from a new one\<close>

text \<open>
  Every store reached from a new one by fewer than \<open>2 ^ 64\<close> creations, whatever the
  calls in between, is well formed and holds distinct ids.
\<close>

lemma word_of_nat_inj_64:
  "a < 2 ^ 64 \<Longrightarrow> b < 2 ^ 64 \<Longrightarrow> (word_of_nat a :: int64) = word_of_nat b \<Longrightarrow> a = b"
  by (simp add: word_of_nat_eq_iff take_bit_nat_eq_self)

lemma ID_apply_update: "ID (apply_update upd p) = ID p"
  by (simp add: apply_update_fields)

lemma remove_nth_ids:
  assumes "k < length ps"
  shows "distinct (map ID ps) \<Longrightarrow> distinct (map ID (take k ps @ drop (Suc k) ps))"
    and "set (map ID (take k ps @ drop (Suc k) ps)) \<subseteq> set (map ID ps)"
proof -
  have e: "ps = take k ps @ ps ! k # drop (Suc k) ps"
    by (rule id_take_nth_drop [OF assms])
  obtain xs x ys where ps: "ps = xs @ x # ys" and t: "take k ps = xs" and d: "drop (Suc k) ps = ys"
    by (rule that [OF e refl refl])
  show "distinct (map ID ps) \<Longrightarrow> distinct (map ID (take k ps @ drop (Suc k) ps))"
    unfolding t d by (simp add: ps)
  show "set (map ID (take k ps @ drop (Suc k) ps)) \<subseteq> set (map ID ps)"
    unfolding t d by (auto simp: ps)
qed

lemma exec_ids_issued:
  assumes ok: "store_ok w" and inv: "ids_issued n w"
    and bound: "n + creations [c] < 2 ^ 64"
  shows "ids_issued (n + creations [c]) (snd (exec grow c w))"
proof (cases c)
  case CallList
  with ok inv show ?thesis
    by (simp add: List_effect [OF ok] ids_issued_def patients_def elems_def nth_append store_ok_def)
next
  case (CallGet i)
  with inv show ?thesis by (simp add: split_def Let_def)
next
  case (CallCreate p)
  from bound CallCreate have b: "Suc n < 2 ^ 64" by simp
  have fresh: "(word_of_nat (Suc n) :: int64) \<notin> set (map ID (patients w))"
  proof
    assume "(word_of_nat (Suc n) :: int64) \<in> set (map ID (patients w))"
    with inv obtain k where k: "k \<in> set [1 ..< Suc n]" "(word_of_nat (Suc n) :: int64) = word_of_nat k"
      unfolding ids_issued_def by auto
    from k(1) have "k \<le> Suc n" by auto
    from this b have "k < 2 ^ 64" by (rule le_less_trans)
    from word_of_nat_inj_64 [OF b this k(2)] k(1) show False by simp
  qed
  from inv have sub: "set (map ID (patients w)) \<subseteq> set (map word_of_nat [1 ..< Suc (Suc n)])"
    unfolding ids_issued_def by auto
  from inv fresh sub show ?thesis
    by (simp add: CallCreate split_def Let_def ids_issued_def Create_effect(1) [OF ok] Create_nextID)
next
  case (CallUpdate i upd)
  show ?thesis
  proof (cases "first_index i (patients w)")
    case None
    with inv show ?thesis by (simp add: CallUpdate Update_missing)
  next
    case (Some k)
    have "map ID ((patients w)[k := apply_update upd (patients w ! k)]) = map ID (patients w)"
      by (simp add: map_update ID_apply_update list_update_same_conv first_index_Some [OF Some])
    with inv show ?thesis
      by (simp add: CallUpdate split_def Let_def ids_issued_def Update_found(2,3) [OF ok Some])
  qed
next
  case (CallDelete i)
  show ?thesis
  proof (cases "first_index i (patients w)")
    case None
    with inv show ?thesis by (simp add: CallDelete Delete_missing)
  next
    case (Some k)
    from first_index_Some [OF Some] have kl: "k < length (patients w)" by simp
    have p': "patients (snd (exec grow c w)) = take k (patients w) @ drop (Suc k) (patients w)"
      by (simp add: CallDelete split_def Let_def Delete_found(2) [OF ok Some])
    have n': "nextID (snd (snd (exec grow c w))) = nextID (snd w)"
      by (subst exec_nextID) (simp add: CallDelete)
    from inv have i: "nextID (snd w) = word_of_nat (Suc n)" "distinct (map ID (patients w))"
      "set (map ID (patients w)) \<subseteq> set (map word_of_nat [1 ..< Suc n])"
      unfolding ids_issued_def by blast+
    have "ids_issued n (snd (exec grow c w))"
      unfolding ids_issued_def p' n'
      using i(1) remove_nth_ids(1) [OF kl i(2)] subset_trans [OF remove_nth_ids(2) [OF kl] i(3)]
      by blast
    then show ?thesis by (simp add: CallDelete del: exec.simps)
  qed
qed

lemma creations_Cons: "creations (c # cs) = creations [c] + creations cs"
  by (cases c) simp_all

lemma run_ids_issued:
  assumes "store_ok w" and "ids_issued n w" and "n + creations cs < 2 ^ 64"
  shows "store_ok (snd (run grow cs w)) \<and> ids_issued (n + creations cs) (snd (run grow cs w))"
  using assms
proof (induction cs arbitrary: w n)
  case Nil
  then show ?case by simp
next
  case (Cons c cs)
  let ?w1 = "snd (exec grow c w)"
  from Cons.prems(3) have b: "n + creations [c] < 2 ^ 64" "n + creations [c] + creations cs < 2 ^ 64"
    by (simp_all add: creations_Cons [of c cs])
  from exec_ok_frame [OF Cons.prems(1), of grow c] have ok1: "store_ok ?w1" by simp
  note inv1 = exec_ids_issued [OF Cons.prems(1,2) b(1), of grow]
  from Cons.IH [OF ok1 inv1 b(2)] show ?case
    by (simp add: split_def Let_def creations_Cons [of c cs] add.assoc del: exec.simps)
qed

lemma reachable_ids_distinct:
  assumes "creations cs < 2 ^ 64"
  shows "store_ok (snd (run grow cs (NewStore m))) \<and>
         distinct (map ID (patients (snd (run grow cs (NewStore m)))))"
proof -
  have "ids_issued 0 (NewStore m)"
    by (simp add: ids_issued_def NewStore_nextID NewStore_patients)
  from run_ids_issued [OF NewStore_ok this, of cs grow] assms show ?thesis
    by (simp add: ids_issued_def)
qed

section \<open>Writing responses\<close>

lemma writeJSON_fresh:
  assumes "status w = None" and "100 \<le> code" and "code \<le> 999" and "bodyAllowedForStatus code"
  shows "writeJSON m code v w = Some (json_sent w code (Encode m v))"
  using assms
  by (simp add: writeJSON_def WriteHeader_def Header_Set_def Write_def json_sent_def)

lemma StatusText_400: "StatusText 400 = ''Bad Request''"
  by (simp add: StatusText_def statusTexts_def)

lemma StatusText_404: "StatusText 404 = ''Not Found''"
  by (simp add: StatusText_def statusTexts_def)

lemma StatusText_405: "StatusText 405 = ''Method Not Allowed''"
  by (simp add: StatusText_def statusTexts_def)

lemma StatusText_500: "StatusText 500 = ''Internal Server Error''"
  by (simp add: StatusText_def statusTexts_def)

lemma StatusText_0: "StatusText 0 = []"
  by (simp add: StatusText_def statusTexts_def)

lemma writeError_400:
  "status w = None \<Longrightarrow>
     writeError m (newResponseError 400 msg) w = Some (json_sent w 400 (WError 400 ''Bad Request'' msg))"
  by (simp add: writeError_def newResponseError_def StatusText_400 writeJSON_fresh
      bodyAllowedForStatus_def)

lemma post_created:
  assumes "Method r = ''POST''" and "status w = None" and "decode (Body r) = Some p"
    and "\<not> (TrimSpace (Fullname p) = [] \<or> TrimSpace (Sex p) = [] \<or>
            TrimSpace (Birthdate p) = [] \<or> TrimSpace (Address p) = [])"
  shows "patients_handler grow decode r (w, st) =
           Some (json_sent w 201
                   (WResponse 201 ''Created'' (WPatient (p\<lparr>ID := nextID (snd st)\<rparr>))),
                 snd (Store_Create grow p st))"
proof -
  have m: "Method r \<noteq> ''GET''" using assms(1) by simp
  have "patients_handler grow decode r (w, st) =
          respond (snd (Store_Create grow p st))
            (writeJSON (fst (snd (Store_Create grow p st))) 201
               (JResponse (fst (Store_Create grow p st))) w)"
    using assms m by (simp add: patients_handler_def split_def Let_def)
  then show ?thesis
    using assms(2)
    by (simp add: writeJSON_fresh bodyAllowedForStatus_def Create_response respond_def)
qed

lemmas trim_eval = TrimSpace_def asciiSpace_def wideSpaces_def

lemma post_outcomes:
  assumes "Method r = ''POST''" and "status w = None"
  shows "(decode (Body r) = None \<longrightarrow>
            patients_handler grow decode r (w, st) =
              Some (json_sent w 400 (WError 400 ''Bad Request'' ''invalid JSON body''), st)) \<and>
         (\<forall>p. decode (Body r) = Some p \<longrightarrow>
            (if TrimSpace (Fullname p) = [] \<or> TrimSpace (Sex p) = [] \<or>
                TrimSpace (Birthdate p) = [] \<or> TrimSpace (Address p) = []
             then patients_handler grow decode r (w, st) =
                    Some (json_sent w 400 (WError 400 ''Bad Request''
                            ''fullname, sex, birthdate and address are required''), st)
             else patients_handler grow decode r (w, st) =
                    Some (json_sent w 201
                            (WResponse 201 ''Created'' (WPatient (p\<lparr>ID := nextID (snd st)\<rparr>))),
                          snd (Store_Create grow p st)) \<and>
                  fst (Store_Create grow p st) =
                    \<lparr>Code = 201, Status = ''Created'', Data = PatientVal (p\<lparr>ID := nextID (snd st)\<rparr>)\<rparr> \<and>
                  (store_ok st \<longrightarrow>
                     patients (snd (Store_Create grow p st)) =
                       patients st @ [p\<lparr>ID := nextID (snd st)\<rparr>])))"
proof -
  have m: "Method r \<noteq> ''GET''" using assms(1) by simp
  show ?thesis
  proof (intro conjI impI allI)
    assume "decode (Body r) = None"
    then show "patients_handler grow decode r (w, st) =
              Some (json_sent w 400 (WError 400 ''Bad Request'' ''invalid JSON body''), st)"
      using assms by (simp add: patients_handler_def respond_def writeError_400)
  next
    fix p assume p: "decode (Body r) = Some p"
    show "if TrimSpace (Fullname p) = [] \<or> TrimSpace (Sex p) = [] \<or>
                TrimSpace (Birthdate p) = [] \<or> TrimSpace (Address p) = []
             then patients_handler grow decode r (w, st) =
                    Some (json_sent w 400 (WError 400 ''Bad Request''
                            ''fullname, sex, birthdate and address are required''), st)
             else patients_handler grow decode r (w, st) =
                    Some (json_sent w 201
                            (WResponse 201 ''Created'' (WPatient (p\<lparr>ID := nextID (snd st)\<rparr>))),
                          snd (Store_Create grow p st)) \<and>
                  fst (Store_Create grow p st) =
                    \<lparr>Code = 201, Status = ''Created'', Data = PatientVal (p\<lparr>ID := nextID (snd st)\<rparr>)\<rparr> \<and>
                  (store_ok st \<longrightarrow>
                     patients (snd (Store_Create grow p st)) =
                       patients st @ [p\<lparr>ID := nextID (snd st)\<rparr>])"
    proof (cases "TrimSpace (Fullname p) = [] \<or> TrimSpace (Sex p) = [] \<or>
                TrimSpace (Birthdate p) = [] \<or> TrimSpace (Address p) = []")
      case True
      have "patients_handler grow decode r (w, st) =
                    Some (json_sent w 400 (WError 400 ''Bad Request''
                            ''fullname, sex, birthdate and address are required''), st)"
        using True p assms m
        by (simp add: patients_handler_def respond_def writeError_400 del: disj_not1)
      with True show ?thesis by (simp only: if_True)
    next
      case False
      from post_created [where decode = decode and p = p, OF assms p False, of grow st] Create_response [of grow p st] Create_effect(1) [of st grow p]
      show ?thesis using False by (simp only: if_False) blast
    qed
  qed
qed

text \<open>The decoder on the example bodies.\<close>

lemma decode_erin: "json_Decode body_erin = Some erin" and valid_erin: "json_Valid body_erin"
  by code_simp+

lemma decode_trailing: "json_Decode body_trailing = Some erin"
  and invalid_trailing: "\<not> json_Valid body_trailing"
  by code_simp+

lemma decode_truncated: "json_Decode body_truncated = None"
  by code_simp

lemma decode_blank_name:
  "json_Decode body_blank_name =
     Some \<lparr>ID = 0, Fullname = [], Sex = ''F'', Birthdate = ''2000-01-01'', Address = ''x''\<rparr>"
  by code_simp

lemma decode_wrong_type: "json_Decode body_wrong_type = None"
  and valid_wrong_type: "json_Valid body_wrong_type"
  by code_simp+

section \<open>Claims\<close>

subsection \<open>C1: what \<^verbatim>\<open>Update\<close> overwrites\<close>

text \<open>
  C1, as amended. For a well-formed store holding a patient with the id, \<^verbatim>\<open>Update\<close>
  acts on the first such record in store order: a field (fullname, sex, birthdate,
  address) is overwritten with the input's field if and only if that input field is not
  the empty string, and keeps its stored value when it is empty; the id is kept. The
  test is on the raw field: nothing is trimmed. \<^verbatim>\<open>Update\<close> returns found = true
  with the envelope 200 "Ok" carrying the updated record; no other record and no other
  field of the store changes.
\<close>

theorem Update_overwrites_nonempty_fields:
  assumes "store_ok w" and "p \<in> set (patients w)" and "ID p = i"
  shows "\<exists>k < length (patients w).
           ID (patients w ! k) = i \<and> (\<forall>j < k. ID (patients w ! j) \<noteq> i) \<and>
           (let old = patients w ! k;
                new = old\<lparr>Fullname := (if Fullname upd = [] then Fullname old else Fullname upd),
                          Sex := (if Sex upd = [] then Sex old else Sex upd),
                          Birthdate := (if Birthdate upd = [] then Birthdate old else Birthdate upd),
                          Address := (if Address upd = [] then Address old else Address upd)\<rparr>
            in fst (Store_Update i upd w) = (\<lparr>Code = 200, Status = ''Ok'', Data = PatientVal new\<rparr>, True) \<and>
               patients (snd (Store_Update i upd w)) = (patients w)[k := new] \<and>
               snd (snd (Store_Update i upd w)) = snd w)"
proof -
  from first_index_exists [OF assms(2,3)] obtain k where k: "first_index i (patients w) = Some k"
    by blast
  note f = first_index_Some [OF k]
  note u = Update_found [OF assms(1) k, of upd]
  show ?thesis
  proof (intro exI [of _ k] conjI)
    show "k < length (patients w)" using f by simp
    show "ID (patients w ! k) = i" using f by simp
    show "\<forall>j < k. ID (patients w ! j) \<noteq> i" using f by simp
    show "let old = patients w ! k;
                new = old\<lparr>Fullname := (if Fullname upd = [] then Fullname old else Fullname upd),
                          Sex := (if Sex upd = [] then Sex old else Sex upd),
                          Birthdate := (if Birthdate upd = [] then Birthdate old else Birthdate upd),
                          Address := (if Address upd = [] then Address old else Address upd)\<rparr>
            in fst (Store_Update i upd w) = (\<lparr>Code = 200, Status = ''Ok'', Data = PatientVal new\<rparr>, True) \<and>
               patients (snd (Store_Update i upd w)) = (patients w)[k := new] \<and>
               snd (snd (Store_Update i upd w)) = snd w"
      unfolding Let_def using u(1,2,3) by (simp only: apply_update_fields)
  qed
qed

text \<open>On the seeded store, updating only the fullname of record 1.\<close>

theorem Update_overwrites_nonempty_fields_witness:
  "store_ok (main_store (\<lambda>c n. 2 * n)) \<and>
   fst (Store_Update 1 (zeroPatient\<lparr>Fullname := ''Alicia''\<rparr>) (main_store (\<lambda>c n. 2 * n))) =
     (\<lparr>Code = 200, Status = ''Ok'',
       Data = PatientVal \<lparr>ID = 1, Fullname = ''Alicia'', Sex = ''F'', Birthdate = ''1990-01-01'',
                          Address = ''123 A St''\<rparr>\<rparr>, True) \<and>
   patients (snd (Store_Update 1 (zeroPatient\<lparr>Fullname := ''Alicia''\<rparr>) (main_store (\<lambda>c n. 2 * n)))) =
     [\<lparr>ID = 1, Fullname = ''Alicia'', Sex = ''F'', Birthdate = ''1990-01-01'', Address = ''123 A St''\<rparr>,
      bob\<lparr>ID := 2\<rparr>]"
proof -
  let ?w = "main_store (\<lambda>c n. 2 * n)"
  let ?upd = "zeroPatient\<lparr>Fullname := ''Alicia''\<rparr>"
  have ok: "store_ok ?w" by (rule main_store_ok)
  have mem: "alice\<lparr>ID := 1\<rparr> \<in> set (patients ?w)" by (simp add: main_store_patients)
  have id: "ID (alice\<lparr>ID := 1\<rparr>) = 1" by simp
  from Update_overwrites_nonempty_fields [OF ok mem id, of ?upd]
  obtain k where k: "k < length (patients ?w)" "ID (patients ?w ! k) = 1"
    and r: "fst (Store_Update 1 ?upd ?w) =
              (\<lparr>Code = 200, Status = ''Ok'',
                Data = PatientVal ((patients ?w ! k)\<lparr>Fullname := ''Alicia''\<rparr>)\<rparr>, True)"
       "patients (snd (Store_Update 1 ?upd ?w)) =
          (patients ?w)[k := (patients ?w ! k)\<lparr>Fullname := ''Alicia''\<rparr>]"
    by (auto simp: Let_def zeroPatient_def)
  from k have k0: "k = 0"
    by (cases k) (auto simp: main_store_patients)
  from r ok show ?thesis
    unfolding k0 by (simp add: main_store_patients alice_def)
qed

text \<open>
  C1 as stated fails on a field of white space only. A blank is empty after trimming,
  yet \<^verbatim>\<open>Update\<close> with the fullname \<^verbatim>\<open>" "\<close> and the sex \<^verbatim>\<open>"X"\<close> replaces the
  stored fullname \<^verbatim>\<open>"Alice Example"\<close> of the seeded record 1 by the blank; and the
  handler passes such a body on, since one of its fields is not blank:
  \<^verbatim>\<open>PUT /patients/1\<close> answers 200 with the blank fullname.
\<close>

theorem Update_whitespace_counterexample:
  "TrimSpace '' '' = [] \<and>
   patients (main_store (\<lambda>c n. 2 * n)) ! 0 =
     \<lparr>ID = 1, Fullname = ''Alice Example'', Sex = ''F'', Birthdate = ''1990-01-01'',
       Address = ''123 A St''\<rparr> \<and>
   Store_Update 1 \<lparr>ID = 0, Fullname = '' '', Sex = ''X'', Birthdate = [], Address = []\<rparr>
       (main_store (\<lambda>c n. 2 * n)) =
     ((\<lparr>Code = 200, Status = ''Ok'',
        Data = PatientVal \<lparr>ID = 1, Fullname = '' '', Sex = ''X'', Birthdate = ''1990-01-01'',
                           Address = ''123 A St''\<rparr>\<rparr>, True),
      ([[], [\<lparr>ID = 1, Fullname = '' '', Sex = ''X'', Birthdate = ''1990-01-01'',
               Address = ''123 A St''\<rparr>,
             \<lparr>ID = 2, Fullname = ''Bob Example'', Sex = ''M'', Birthdate = ''1988-05-05'',
               Address = ''456 B Ave''\<rparr>]],
       \<lparr>users = \<lparr>arr = 1, len = 2, cap = 2\<rparr>, nextID = 3\<rparr>)) \<and>
   patient_handler (\<lambda>c n. 2 * n)
       (\<lambda>b. Some \<lparr>ID = 0, Fullname = '' '', Sex = ''X'', Birthdate = [], Address = []\<rparr>)
       \<lparr>Method = ''PUT'', Path = ''/patients/1'', Body = []\<rparr>
       (newResponseWriter, main_store (\<lambda>c n. 2 * n)) =
     Some (\<lparr>header = [(''Content-Type'', ''application/json'')], status = Some 200,
            body = [WResponse 200 ''Ok''
                      (WPatient \<lparr>ID = 1, Fullname = '' '', Sex = ''X'',
                                 Birthdate = ''1990-01-01'', Address = ''123 A St''\<rparr>)]\<rparr>,
           ([[], [\<lparr>ID = 1, Fullname = '' '', Sex = ''X'', Birthdate = ''1990-01-01'',
                    Address = ''123 A St''\<rparr>,
                  \<lparr>ID = 2, Fullname = ''Bob Example'', Sex = ''M'', Birthdate = ''1988-05-05'',
                    Address = ''456 B Ave''\<rparr>]],
            \<lparr>users = \<lparr>arr = 1, len = 2, cap = 2\<rparr>, nextID = 3\<rparr>))"
proof -
  have w: "main_store (\<lambda>c n. 2 * n) =
      ([[], [alice\<lparr>ID := 1\<rparr>, bob\<lparr>ID := 2\<rparr>]],
       \<lparr>users = \<lparr>arr = 1, len = 2, cap = 2\<rparr>, nextID = 3\<rparr>)"
    by (simp add: main_store_def NewStore_def make_slice_def Store_Create_def append_slice_def
        elems_def write_at_def Let_def)
  have t: "TrimSpace '' '' = []" "TrimSpace ''X'' \<noteq> []"
    by (simp_all add: trim_eval)
  have u: "Store_Update 1 \<lparr>ID = 0, Fullname = '' '', Sex = ''X'', Birthdate = [], Address = []\<rparr>
       (main_store (\<lambda>c n. 2 * n)) =
     ((\<lparr>Code = 200, Status = ''Ok'',
        Data = PatientVal \<lparr>ID = 1, Fullname = '' '', Sex = ''X'', Birthdate = ''1990-01-01'',
                           Address = ''123 A St''\<rparr>\<rparr>, True),
      ([[], [\<lparr>ID = 1, Fullname = '' '', Sex = ''X'', Birthdate = ''1990-01-01'',
               Address = ''123 A St''\<rparr>,
             \<lparr>ID = 2, Fullname = ''Bob Example'', Sex = ''M'', Birthdate = ''1988-05-05'',
               Address = ''456 B Ave''\<rparr>]],
       \<lparr>users = \<lparr>arr = 1, len = 2, cap = 2\<rparr>, nextID = 3\<rparr>))"
    unfolding w
    by (simp add: Store_Update_def elems_def apply_update_def Let_def alice_def bob_def)
  have i: "idStr_of \<lparr>Method = ''PUT'', Path = ''/patients/1'', Body = []\<rparr> = ''1''"
    by (simp add: idStr_of_def TrimPrefix_def TrimSuffix_def)
  have p: "ParseInt ''1'' = Inr 1"
    by (simp add: ParseInt_def ParseUint_def isDigit_def)
  have h: "patient_handler (\<lambda>c n. 2 * n)
       (\<lambda>b. Some \<lparr>ID = 0, Fullname = '' '', Sex = ''X'', Birthdate = [], Address = []\<rparr>)
       \<lparr>Method = ''PUT'', Path = ''/patients/1'', Body = []\<rparr>
       (newResponseWriter, main_store (\<lambda>c n. 2 * n)) =
     Some (\<lparr>header = [(''Content-Type'', ''application/json'')], status = Some 200,
            body = [WResponse 200 ''Ok''
                      (WPatient \<lparr>ID = 1, Fullname = '' '', Sex = ''X'',
                                 Birthdate = ''1990-01-01'', Address = ''123 A St''\<rparr>)]\<rparr>,
           ([[], [\<lparr>ID = 1, Fullname = '' '', Sex = ''X'', Birthdate = ''1990-01-01'',
                    Address = ''123 A St''\<rparr>,
                  \<lparr>ID = 2, Fullname = ''Bob Example'', Sex = ''M'', Birthdate = ''1988-05-05'',
                    Address = ''456 B Ave''\<rparr>]],
            \<lparr>users = \<lparr>arr = 1, len = 2, cap = 2\<rparr>, nextID = 3\<rparr>))"
    by (simp add: patient_handler_def i p t u respond_def writeJSON_def WriteHeader_def
        Header_Set_def Write_def bodyAllowedForStatus_def newResponseWriter_def Let_def)
  have a: "patients (main_store (\<lambda>c n. 2 * n)) ! 0 =
     \<lparr>ID = 1, Fullname = ''Alice Example'', Sex = ''F'', Birthdate = ''1990-01-01'',
       Address = ''123 A St''\<rparr>"
    by (simp add: main_store_patients alice_def)
  from t(1) a u h show ?thesis by (intro conjI)
qed

subsection \<open>C2: the ids \<^verbatim>\<open>Create\<close> assigns\<close>

text \<open>
  C2. Take any sequence of calls to the store's methods on a new store, with any
  \<^verbatim>\<open>List\<close>, \<^verbatim>\<open>Get\<close>, \<^verbatim>\<open>Update\<close> and \<^verbatim>\<open>Delete\<close> between its \<open>N\<close> calls
  of \<^verbatim>\<open>Create\<close> (the two of \<^verbatim>\<open>main\<close> are the first two of such a sequence). The
  ids the creations return are 1, 2, ..., \<open>N\<close> in this order, so each is positive and
  no two are equal, and \<^verbatim>\<open>Create\<close> does not look at the id of the patient it is
  given. The ids are \<^verbatim>\<open>int64\<close>: the statement is for \<open>N < 2 ^ 63\<close>, the ids
  that type has above zero.
\<close>

theorem Create_ids_count_up:
  assumes "creations cs < 2 ^ 63"
  shows "created_ids (fst (run grow cs (NewStore m))) = map word_of_nat [1 ..< Suc (creations cs)] \<and>
         map sint (created_ids (fst (run grow cs (NewStore m)))) = map int [1 ..< Suc (creations cs)] \<and>
         distinct (created_ids (fst (run grow cs (NewStore m)))) \<and>
         (\<forall>i \<in> set (created_ids (fst (run grow cs (NewStore m)))). 0 < sint i) \<and>
         Store_Create grow (p\<lparr>ID := j\<rparr>) w = Store_Create grow p w"
proof -
  let ?ids = "created_ids (fst (run grow cs (NewStore m)))"
  have "?ids = map (\<lambda>k. word_of_nat (Suc k)) [0 ..< creations cs]"
    by (simp add: run_created_ids NewStore_nextID)
  then have ids: "?ids = map word_of_nat [1 ..< Suc (creations cs)]"
    by (simp only: map_shift_upt)
  have "map sint (map (word_of_nat :: nat \<Rightarrow> int64) [1 ..< Suc (creations cs)]) =
        map int [1 ..< Suc (creations cs)]"
    unfolding map_map
  proof (rule map_cong [OF refl])
    fix k assume "k \<in> set [1 ..< Suc (creations cs)]"
    then have "k \<le> creations cs" by auto
    from this assms have "k < 2 ^ 63" by (rule le_less_trans)
    then show "(sint \<circ> (word_of_nat :: nat \<Rightarrow> int64)) k = int k"
      by (simp add: sint_of_nat_64)
  qed
  with ids have sints: "map sint ?ids = map int [1 ..< Suc (creations cs)]" by simp
  have "distinct (map int [1 ..< Suc (creations cs)])"
    by (simp add: distinct_map)
  with sints have "distinct (map sint ?ids)" by simp
  then have dist: "distinct ?ids" by (simp add: distinct_map)
  have pos: "\<forall>i \<in> set ?ids. 0 < sint i"
  proof
    fix i assume "i \<in> set ?ids"
    then have "sint i \<in> set (map sint ?ids)" by simp
    then show "0 < sint i" unfolding sints by auto
  qed
  have "Store_Create grow (p\<lparr>ID := j\<rparr>) w = Store_Create grow p w"
    by (simp add: Store_Create_def)
  with ids sints dist pos show ?thesis by simp
qed

text \<open>
  Four creations, the two seeds first, with deletions in between and a caller-supplied
  id: the ids are 1, 2, 3, 4.
\<close>

theorem Create_ids_count_up_witness:
  "creations [CallCreate alice, CallCreate bob, CallDelete 1, CallCreate (alice\<lparr>ID := 1\<rparr>),
              CallDelete 3, CallCreate bob] < (2::nat) ^ 63 \<and>
   created_ids (fst (run (\<lambda>c n. 2 * n)
     [CallCreate alice, CallCreate bob, CallDelete 1, CallCreate (alice\<lparr>ID := 1\<rparr>),
      CallDelete 3, CallCreate bob] (NewStore []))) = [1, 2, 3, 4]"
proof -
  let ?cs = "[CallCreate alice, CallCreate bob, CallDelete 1, CallCreate (alice\<lparr>ID := 1\<rparr>),
              CallDelete 3, CallCreate bob]"
  have n: "creations ?cs = 4" by simp
  have h: "creations ?cs < 2 ^ 63" by (simp only: n) simp
  have u: "[1 ..< Suc 4] = [1, 2, 3, 4]" by (simp add: upt_rec)
  from Create_ids_count_up [OF h, of "\<lambda>c n. 2 * n" "[]"]
  have "created_ids (fst (run (\<lambda>c n. 2 * n) ?cs (NewStore []))) = map word_of_nat [1 ..< Suc 4]"
    unfolding n by blast
  with h show ?thesis unfolding u by simp
qed

subsection \<open>C3: a malformed id\<close>

text \<open>
  C3. A request to the handler of \<^verbatim>\<open>/patients/\<close>, with any method and body: when
  the id segment (the path without the prefix \<^verbatim>\<open>/patients/\<close> and without one
  trailing slash) is empty or \<^verbatim>\<open>ParseInt\<close> returns an error for it, the response is
  400 with the error envelope 400 "Bad Request" "invalid id", so never 404. The store
  and the memory are returned as they were, and the response is the same whatever the
  store holds: the store is not consulted.
\<close>

theorem malformed_id_is_400:
  assumes "status w = None"
    and "idStr_of r = [] \<or> isl (ParseInt (idStr_of r))"
  shows "patient_handler grow decode r (w, st) =
           Some (json_sent w 400 (WError 400 ''Bad Request'' ''invalid id''), st) \<and>
         map_option fst (patient_handler grow' decode' r (w, st')) =
           Some (json_sent w 400 (WError 400 ''Bad Request'' ''invalid id''))"
proof -
  have "patient_handler g d r (w, s) =
          Some (json_sent w 400 (WError 400 ''Bad Request'' ''invalid id''), s)" for g d s
    using assms
    by (cases "ParseInt (idStr_of r)")
      (simp_all add: patient_handler_def respond_def writeError_400 Let_def)
  then show ?thesis by simp
qed

text \<open>\<^verbatim>\<open>GET /patients/abc\<close> on the seeded store.\<close>

theorem malformed_id_is_400_witness:
  "status newResponseWriter = None \<and>
   isl (ParseInt (idStr_of \<lparr>Method = ''GET'', Path = ''/patients/abc'', Body = []\<rparr>)) \<and>
   patient_handler (\<lambda>c n. 2 * n) (\<lambda>b. None) \<lparr>Method = ''GET'', Path = ''/patients/abc'', Body = []\<rparr>
       (newResponseWriter, main_store (\<lambda>c n. 2 * n)) =
     Some (\<lparr>header = [(''Content-Type'', ''application/json'')], status = Some 400,
            body = [WError 400 ''Bad Request'' ''invalid id'']\<rparr>, main_store (\<lambda>c n. 2 * n))"
proof -
  let ?r = "\<lparr>Method = ''GET'', Path = ''/patients/abc'', Body = []\<rparr>"
  have s: "status newResponseWriter = None" by (simp add: newResponseWriter_def)
  have i: "idStr_of ?r = ''abc''" by (simp add: idStr_of_def TrimPrefix_def TrimSuffix_def)
  have p: "isl (ParseInt (idStr_of ?r))"
    unfolding i by (simp add: ParseInt_def ParseUint_def isDigit_def)
  then have h: "idStr_of ?r = [] \<or> isl (ParseInt (idStr_of ?r))" ..
  from malformed_id_is_400 [OF s h, of "\<lambda>c n. 2 * n" "\<lambda>b. None" "main_store (\<lambda>c n. 2 * n)"] s p
  show ?thesis by (simp add: json_sent_def newResponseWriter_def)
qed

subsection \<open>C4: \<^verbatim>\<open>POST /patients\<close>\<close>

text \<open>
  C4, as amended. A POST request to the handler of \<^verbatim>\<open>/patients\<close>, the decoder
  being the program's. When \<^verbatim>\<open>Decode\<close> of the body into a Patient returns an error,
  the response is 400 with the message "invalid JSON body". When it returns none and
  one of fullname, sex, birthdate, address is empty after trimming, the response is 400
  with the message "fullname, sex, birthdate and address are required". In both cases
  the store is as before: \<^verbatim>\<open>Create\<close> is not called. Otherwise the response is 201
  with the envelope \<^verbatim>\<open>Create\<close> returned, code 201 and status "Created", carrying
  the record with the id assigned, and that record is the one appended to the store.
\<close>

theorem post_patients_responses:
  assumes "Method r = ''POST''" and "status w = None"
  shows "(json_Decode (Body r) = None \<longrightarrow>
            patients_handler grow json_Decode r (w, st) =
              Some (json_sent w 400 (WError 400 ''Bad Request'' ''invalid JSON body''), st)) \<and>
         (\<forall>p. json_Decode (Body r) = Some p \<longrightarrow>
            (if TrimSpace (Fullname p) = [] \<or> TrimSpace (Sex p) = [] \<or>
                TrimSpace (Birthdate p) = [] \<or> TrimSpace (Address p) = []
             then patients_handler grow json_Decode r (w, st) =
                    Some (json_sent w 400 (WError 400 ''Bad Request''
                            ''fullname, sex, birthdate and address are required''), st)
             else patients_handler grow json_Decode r (w, st) =
                    Some (json_sent w 201
                            (WResponse 201 ''Created'' (WPatient (p\<lparr>ID := nextID (snd st)\<rparr>))),
                          snd (Store_Create grow p st)) \<and>
                  fst (Store_Create grow p st) =
                    \<lparr>Code = 201, Status = ''Created'', Data = PatientVal (p\<lparr>ID := nextID (snd st)\<rparr>)\<rparr> \<and>
                  (store_ok st \<longrightarrow>
                     patients (snd (Store_Create grow p st)) =
                       patients st @ [p\<lparr>ID := nextID (snd st)\<rparr>])))"
  by (rule post_outcomes [OF assms])

text \<open>
  On the seeded store: a body cut off in the middle, the body with an empty fullname,
  and a complete body, which is created with id 3.
\<close>

theorem post_patients_responses_witness:
  "Method \<lparr>Method = ''POST'', Path = ''/patients'', Body = body_truncated\<rparr> = ''POST'' \<and>
   status newResponseWriter = None \<and>
   patients_handler (\<lambda>c n. 2 * n) json_Decode
       \<lparr>Method = ''POST'', Path = ''/patients'', Body = body_truncated\<rparr>
       (newResponseWriter, main_store (\<lambda>c n. 2 * n)) =
     Some (\<lparr>header = [(''Content-Type'', ''application/json'')], status = Some 400,
            body = [WError 400 ''Bad Request'' ''invalid JSON body'']\<rparr>,
           main_store (\<lambda>c n. 2 * n)) \<and>
   patients_handler (\<lambda>c n. 2 * n) json_Decode
       \<lparr>Method = ''POST'', Path = ''/patients'', Body = body_blank_name\<rparr>
       (newResponseWriter, main_store (\<lambda>c n. 2 * n)) =
     Some (\<lparr>header = [(''Content-Type'', ''application/json'')], status = Some 400,
            body = [WError 400 ''Bad Request''
                      ''fullname, sex, birthdate and address are required'']\<rparr>,
           main_store (\<lambda>c n. 2 * n)) \<and>
   patients_handler (\<lambda>c n. 2 * n) json_Decode
       \<lparr>Method = ''POST'', Path = ''/patients'', Body = body_erin\<rparr>
       (newResponseWriter, main_store (\<lambda>c n. 2 * n)) =
     Some (\<lparr>header = [(''Content-Type'', ''application/json'')], status = Some 201,
            body = [WResponse 201 ''Created'' (WPatient (erin\<lparr>ID := 3\<rparr>))]\<rparr>,
           snd (Store_Create (\<lambda>c n. 2 * n) erin (main_store (\<lambda>c n. 2 * n)))) \<and>
   patients (snd (Store_Create (\<lambda>c n. 2 * n) erin (main_store (\<lambda>c n. 2 * n)))) =
     [alice\<lparr>ID := 1\<rparr>, bob\<lparr>ID := 2\<rparr>, erin\<lparr>ID := 3\<rparr>]"
proof -
  let ?g = "\<lambda>c n :: nat. 2 * n"
  let ?w = "main_store ?g"
  let ?a = "\<lparr>Method = ''POST'', Path = ''/patients'', Body = body_truncated\<rparr>"
  let ?b = "\<lparr>Method = ''POST'', Path = ''/patients'', Body = body_blank_name\<rparr>"
  let ?c = "\<lparr>Method = ''POST'', Path = ''/patients'', Body = body_erin\<rparr>"
  have m: "Method ?a = ''POST''" "Method ?b = ''POST''" "Method ?c = ''POST''" by simp_all
  have s: "status newResponseWriter = None" by (simp add: newResponseWriter_def)
  have ok: "store_ok ?w" by (rule main_store_ok)
  have blank: "TrimSpace [] = []" by (simp add: trim_eval)
  have full: "\<not> (TrimSpace (Fullname erin) = [] \<or> TrimSpace (Sex erin) = [] \<or>
                 TrimSpace (Birthdate erin) = [] \<or> TrimSpace (Address erin) = [])"
    by (simp add: erin_def trim_eval)
  from post_patients_responses [OF m(1) s, of ?g ?w]
  have a: "patients_handler ?g json_Decode ?a (newResponseWriter, ?w) =
      Some (json_sent newResponseWriter 400 (WError 400 ''Bad Request'' ''invalid JSON body''), ?w)"
    by (simp add: decode_truncated)
  from post_patients_responses [OF m(2) s, of ?g ?w]
  have b: "patients_handler ?g json_Decode ?b (newResponseWriter, ?w) =
      Some (json_sent newResponseWriter 400 (WError 400 ''Bad Request''
              ''fullname, sex, birthdate and address are required''), ?w)"
    by (simp add: decode_blank_name blank)
  from post_patients_responses [OF m(3) s, of ?g ?w] full ok
  have c: "patients_handler ?g json_Decode ?c (newResponseWriter, ?w) =
      Some (json_sent newResponseWriter 201
              (WResponse 201 ''Created'' (WPatient (erin\<lparr>ID := nextID (snd ?w)\<rparr>))),
            snd (Store_Create ?g erin ?w))"
    and ps: "patients (snd (Store_Create ?g erin ?w)) = patients ?w @ [erin\<lparr>ID := nextID (snd ?w)\<rparr>]"
    by (simp_all add: decode_erin)
  from m(1) s a b c ps show ?thesis
    by (simp add: json_sent_def newResponseWriter_def main_store_nextID main_store_patients)
qed

text \<open>
  C4 as stated fails in both directions, since \<^verbatim>\<open>Decode\<close> failing is not the body
  being invalid JSON. A body that is a complete patient followed by the word
  \<^verbatim>\<open>trailing\<close> is not valid JSON, yet \<^verbatim>\<open>Decode\<close> reads the object and stops:
  the response is 201 and the patient is created. A body that is valid JSON with the
  number 5 for the fullname and the other three fields filled is answered with 400
  "invalid JSON body", which is neither the message for an empty field nor 201.
\<close>

theorem post_invalid_json_counterexample:
  "\<not> json_Valid body_trailing \<and>
   patients_handler (\<lambda>c n. 2 * n) json_Decode
       \<lparr>Method = ''POST'', Path = ''/patients'', Body = body_trailing\<rparr>
       (newResponseWriter, main_store (\<lambda>c n. 2 * n)) =
     Some (\<lparr>header = [(''Content-Type'', ''application/json'')], status = Some 201,
            body = [WResponse 201 ''Created'' (WPatient (erin\<lparr>ID := 3\<rparr>))]\<rparr>,
           snd (Store_Create (\<lambda>c n. 2 * n) erin (main_store (\<lambda>c n. 2 * n)))) \<and>
   patients (snd (Store_Create (\<lambda>c n. 2 * n) erin (main_store (\<lambda>c n. 2 * n)))) =
     [alice\<lparr>ID := 1\<rparr>, bob\<lparr>ID := 2\<rparr>, erin\<lparr>ID := 3\<rparr>] \<and>
   json_Valid body_wrong_type \<and>
   patients_handler (\<lambda>c n. 2 * n) json_Decode
       \<lparr>Method = ''POST'', Path = ''/patients'', Body = body_wrong_type\<rparr>
       (newResponseWriter, main_store (\<lambda>c n. 2 * n)) =
     Some (\<lparr>header = [(''Content-Type'', ''application/json'')], status = Some 400,
            body = [WError 400 ''Bad Request'' ''invalid JSON body'']\<rparr>,
           main_store (\<lambda>c n. 2 * n))"
proof -
  let ?g = "\<lambda>c n :: nat. 2 * n"
  let ?w = "main_store ?g"
  let ?t = "\<lparr>Method = ''POST'', Path = ''/patients'', Body = body_trailing\<rparr>"
  let ?u = "\<lparr>Method = ''POST'', Path = ''/patients'', Body = body_wrong_type\<rparr>"
  have m: "Method ?t = ''POST''" "Method ?u = ''POST''" by simp_all
  have s: "status newResponseWriter = None" by (simp add: newResponseWriter_def)
  have full: "\<not> (TrimSpace (Fullname erin) = [] \<or> TrimSpace (Sex erin) = [] \<or>
                 TrimSpace (Birthdate erin) = [] \<or> TrimSpace (Address erin) = [])"
    by (simp add: erin_def trim_eval)
  have d: "json_Decode (Body ?t) = Some erin" by (simp add: decode_trailing)
  from post_created [where decode = json_Decode and p = erin, OF m(1) s d full, of ?g ?w]
  have t: "patients_handler ?g json_Decode ?t (newResponseWriter, ?w) =
      Some (json_sent newResponseWriter 201
              (WResponse 201 ''Created'' (WPatient (erin\<lparr>ID := 3\<rparr>))),
            snd (Store_Create ?g erin ?w))"
    by (simp add: main_store_nextID)
  have ps: "patients (snd (Store_Create ?g erin ?w)) =
      [alice\<lparr>ID := 1\<rparr>, bob\<lparr>ID := 2\<rparr>, erin\<lparr>ID := 3\<rparr>]"
    by (simp add: Create_effect(1) [OF main_store_ok] main_store_patients main_store_nextID)
  from post_outcomes [OF m(2) s, of json_Decode ?g ?w]
  have u: "patients_handler ?g json_Decode ?u (newResponseWriter, ?w) =
      Some (json_sent newResponseWriter 400 (WError 400 ''Bad Request'' ''invalid JSON body''), ?w)"
    by (simp add: decode_wrong_type)
  from invalid_trailing t ps valid_wrong_type u show ?thesis
    by (simp add: json_sent_def newResponseWriter_def)
qed

subsection \<open>C5: \<^verbatim>\<open>Delete\<close>\<close>

text \<open>
  C5. On a well-formed store: if some record has the id, \<^verbatim>\<open>Delete\<close> returns true
  and removes the first record with the id, at position \<open>k\<close>, the records before and
  after it staying in their order, and the counter stays; when the ids of the store are
  distinct, as they are in every store reached from a new one, that is the only record
  with the id and \<^verbatim>\<open>Get\<close> of the id then returns found = false. If no record has
  the id, \<^verbatim>\<open>Delete\<close> returns false and leaves the memory and the store as they were.
\<close>

theorem Delete_removes_the_record:
  assumes "store_ok w"
  shows "((\<exists>p \<in> set (patients w). ID p = i) \<longrightarrow>
            (\<exists>k < length (patients w).
               ID (patients w ! k) = i \<and> (\<forall>j < k. ID (patients w ! j) \<noteq> i) \<and>
               fst (Store_Delete grow i w) = True \<and>
               patients (snd (Store_Delete grow i w)) =
                 take k (patients w) @ drop (Suc k) (patients w) \<and>
               nextID (snd (snd (Store_Delete grow i w))) = nextID (snd w) \<and>
               (distinct (map ID (patients w)) \<longrightarrow>
                  Store_Get i (snd (Store_Delete grow i w)) = (zeroResponse, False)))) \<and>
         ((\<forall>p \<in> set (patients w). ID p \<noteq> i) \<longrightarrow> Store_Delete grow i w = (False, w))"
proof (intro conjI impI)
  assume "\<exists>p \<in> set (patients w). ID p = i"
  then obtain k where k: "first_index i (patients w) = Some k"
    using first_index_exists by blast
  note f = first_index_Some [OF k]
  note d = Delete_found [OF assms k, of grow]
  have g: "Store_Get i (snd (Store_Delete grow i w)) = (zeroResponse, False)"
    if "distinct (map ID (patients w))"
  proof (rule Get_missing)
    from removed_id_absent [OF that, of k] f
    show "\<forall>p \<in> set (patients (snd (Store_Delete grow i w))). ID p \<noteq> i"
      by (simp add: d(2))
  qed
  from f d(1,2) g Delete_nextID [of grow i w]
  show "\<exists>k < length (patients w).
               ID (patients w ! k) = i \<and> (\<forall>j < k. ID (patients w ! j) \<noteq> i) \<and>
               fst (Store_Delete grow i w) = True \<and>
               patients (snd (Store_Delete grow i w)) =
                 take k (patients w) @ drop (Suc k) (patients w) \<and>
               nextID (snd (snd (Store_Delete grow i w))) = nextID (snd w) \<and>
               (distinct (map ID (patients w)) \<longrightarrow>
                  Store_Get i (snd (Store_Delete grow i w)) = (zeroResponse, False))"
    by (intro exI [of _ k]) simp
next
  assume "\<forall>p \<in> set (patients w). ID p \<noteq> i"
  then have "first_index i (patients w) = None" by (simp add: first_index_None)
  then show "Store_Delete grow i w = (False, w)" by (rule Delete_missing)
qed

text \<open>The records 1, 2, 3: deleting 2 leaves 1 and 3 in this order, and 2 is not found.\<close>

theorem Delete_removes_the_record_witness:
  "store_ok (three_store (\<lambda>c n. 2 * n)) \<and>
   patients (three_store (\<lambda>c n. 2 * n)) = [alice\<lparr>ID := 1\<rparr>, bob\<lparr>ID := 2\<rparr>, carol\<lparr>ID := 3\<rparr>] \<and>
   fst (Store_Delete (\<lambda>c n. 2 * n) 2 (three_store (\<lambda>c n. 2 * n))) = True \<and>
   patients (snd (Store_Delete (\<lambda>c n. 2 * n) 2 (three_store (\<lambda>c n. 2 * n)))) =
     [alice\<lparr>ID := 1\<rparr>, carol\<lparr>ID := 3\<rparr>] \<and>
   Store_Get 2 (snd (Store_Delete (\<lambda>c n. 2 * n) 2 (three_store (\<lambda>c n. 2 * n)))) =
     (zeroResponse, False) \<and>
   Store_Delete (\<lambda>c n. 2 * n) 9 (three_store (\<lambda>c n. 2 * n)) = (False, three_store (\<lambda>c n. 2 * n))"
proof -
  let ?g = "\<lambda>c n :: nat. 2 * n"
  let ?w = "three_store ?g"
  have ok: "store_ok ?w" by (rule three_store_ok)
  note ps = three_store_patients [of ?g]
  have ex: "\<exists>p \<in> set (patients ?w). ID p = 2" by (simp add: ps)
  have dist: "distinct (map ID (patients ?w))" by (simp add: ps)
  have none: "\<forall>p \<in> set (patients ?w). ID p \<noteq> 9" by (simp add: ps)
  from Delete_removes_the_record [OF ok, of 2 ?g] ex dist
  obtain k where k: "k < length (patients ?w)" "ID (patients ?w ! k) = 2"
    and d: "fst (Store_Delete ?g 2 ?w) = True"
      "patients (snd (Store_Delete ?g 2 ?w)) = take k (patients ?w) @ drop (Suc k) (patients ?w)"
      "Store_Get 2 (snd (Store_Delete ?g 2 ?w)) = (zeroResponse, False)"
    by blast
  from k have "k = 0 \<or> k = 1 \<or> k = 2" by (auto simp: ps)
  with k(2) have k1: "k = 1" by (auto simp: ps)
  from Delete_removes_the_record [OF ok, of 9 ?g] none
  have "Store_Delete ?g 9 ?w = (False, ?w)" by blast
  with ok d show ?thesis unfolding k1 by (simp add: ps)
qed

subsection \<open>C6: \<^verbatim>\<open>List\<close> returns a copy\<close>

text \<open>
  C6. On a well-formed store \<^verbatim>\<open>List\<close> returns (it is a total function, with no
  error result) the envelope 200 "Ok" whose data is a slice \<open>out\<close> holding the
  patients of the store in store order. The slice is on an array of its own, not the
  store's, and the store is as before. Whatever calls follow, creations, updates,
  deletions and further listings, the elements of \<open>out\<close> read through the memory of
  any later moment are still the patients of the moment of the call.
\<close>

theorem List_snapshot_unaliased:
  assumes "store_ok w"
  shows "\<exists>out. fst (Store_List w) = \<lparr>Code = 200, Status = ''Ok'', Data = PatientSlice out\<rparr> \<and>
           elems (fst (snd (Store_List w))) out = patients w \<and>
           arr out \<noteq> arr (users (snd (snd (Store_List w)))) \<and>
           patients (snd (Store_List w)) = patients w \<and>
           snd (snd (Store_List w)) = snd w \<and>
           (\<forall>cs. elems (fst (snd (run grow cs (snd (Store_List w))))) out = patients w)"
proof -
  let ?out = "\<lparr>arr = length (fst w), len = len (users (snd w)), cap = len (users (snd w))\<rparr>"
  let ?w1 = "(fst w @ [patients w], snd w)"
  note l = List_effect [OF assms]
  from assms have a: "arr (users (snd w)) < length (fst w)" by (simp add: store_ok_def)
  from assms have ok1: "store_ok ?w1" by (simp add: store_ok_def nth_append)
  have len: "length (patients w) = len (users (snd w))" by (rule length_patients [OF assms])
  have run: "elems (fst (snd (run grow cs ?w1))) ?out = patients w" for cs
  proof -
    from a have "length (fst w) < length (fst ?w1)" "arr (users (snd ?w1)) \<noteq> length (fst w)"
      by simp_all
    from run_preserves [OF ok1 this, of grow cs]
    have "fst (snd (run grow cs ?w1)) ! length (fst w) = patients w" by simp
    then show ?thesis by (simp add: elems_def len [symmetric])
  qed
  show ?thesis
  proof (intro exI [of _ ?out] conjI allI)
    show "fst (Store_List w) = \<lparr>Code = 200, Status = ''Ok'', Data = PatientSlice ?out\<rparr>"
      by (simp add: l)
    show "elems (fst (snd (Store_List w))) ?out = patients w"
      by (simp add: l elems_def len [symmetric])
    show "arr ?out \<noteq> arr (users (snd (snd (Store_List w))))"
      using a by (simp add: l)
    show "patients (snd (Store_List w)) = patients w"
      using a by (simp add: l patients_def elems_def nth_append)
    show "snd (snd (Store_List w)) = snd w" by (simp add: l)
    show "elems (fst (snd (run grow cs (snd (Store_List w))))) ?out = patients w" for cs
      using run [of cs] by (simp add: l)
  qed
qed

text \<open>
  On the seeded store, whose array has room for two: after the listing, an update, a
  deletion and a creation all write into the store's array, and the listing still
  reads Alice and Bob as they were.
\<close>

theorem List_snapshot_unaliased_witness:
  "store_ok (main_store (\<lambda>c n. 2 * n)) \<and>
   fst (Store_List (main_store (\<lambda>c n. 2 * n))) =
     \<lparr>Code = 200, Status = ''Ok'', Data = PatientSlice \<lparr>arr = 2, len = 2, cap = 2\<rparr>\<rparr> \<and>
   elems (fst (snd (Store_List (main_store (\<lambda>c n. 2 * n))))) \<lparr>arr = 2, len = 2, cap = 2\<rparr> =
     [alice\<lparr>ID := 1\<rparr>, bob\<lparr>ID := 2\<rparr>] \<and>
   elems (fst (snd (run (\<lambda>c n. 2 * n)
       [CallUpdate 1 (zeroPatient\<lparr>Fullname := ''Alicia''\<rparr>), CallDelete 2, CallCreate carol]
       (snd (Store_List (main_store (\<lambda>c n. 2 * n)))))))
     \<lparr>arr = 2, len = 2, cap = 2\<rparr> = [alice\<lparr>ID := 1\<rparr>, bob\<lparr>ID := 2\<rparr>] \<and>
   snd (run (\<lambda>c n. 2 * n)
       [CallUpdate 1 (zeroPatient\<lparr>Fullname := ''Alicia''\<rparr>), CallDelete 2, CallCreate carol]
       (snd (Store_List (main_store (\<lambda>c n. 2 * n))))) =
     ([[], [alice\<lparr>ID := 1, Fullname := ''Alicia''\<rparr>, carol\<lparr>ID := 3\<rparr>],
       [alice\<lparr>ID := 1\<rparr>, bob\<lparr>ID := 2\<rparr>]],
      \<lparr>users = \<lparr>arr = 1, len = 2, cap = 2\<rparr>, nextID = 4\<rparr>)"
proof -
  let ?g = "\<lambda>c n :: nat. 2 * n"
  let ?w = "main_store ?g"
  let ?cs = "[CallUpdate 1 (zeroPatient\<lparr>Fullname := ''Alicia''\<rparr>), CallDelete 2, CallCreate carol]"
  have ok: "store_ok ?w" by (rule main_store_ok)
  have w: "?w = ([[], [alice\<lparr>ID := 1\<rparr>, bob\<lparr>ID := 2\<rparr>]],
                 \<lparr>users = \<lparr>arr = 1, len = 2, cap = 2\<rparr>, nextID = 3\<rparr>)"
    by (simp add: main_store_def NewStore_def make_slice_def Store_Create_def append_slice_def
        elems_def write_at_def Let_def)
  have l: "Store_List ?w =
      (\<lparr>Code = 200, Status = ''Ok'', Data = PatientSlice \<lparr>arr = 2, len = 2, cap = 2\<rparr>\<rparr>,
       ([[], [alice\<lparr>ID := 1\<rparr>, bob\<lparr>ID := 2\<rparr>], [alice\<lparr>ID := 1\<rparr>, bob\<lparr>ID := 2\<rparr>]],
        \<lparr>users = \<lparr>arr = 1, len = 2, cap = 2\<rparr>, nextID = 3\<rparr>))"
    unfolding w
    by (simp add: Store_List_def make_slice_def copy_slice_def elems_def write_at_def Let_def)
  have r: "snd (run ?g ?cs (snd (Store_List ?w))) =
     ([[], [alice\<lparr>ID := 1, Fullname := ''Alicia''\<rparr>, carol\<lparr>ID := 3\<rparr>],
       [alice\<lparr>ID := 1\<rparr>, bob\<lparr>ID := 2\<rparr>]],
      \<lparr>users = \<lparr>arr = 1, len = 2, cap = 2\<rparr>, nextID = 4\<rparr>)"
    unfolding l
    by (simp add: Store_Update_def Store_Delete_def Store_Create_def append_slice_def
        elems_def write_at_def Let_def apply_update_def zeroPatient_def alice_def bob_def)
  from List_snapshot_unaliased [OF ok, of ?g]
  obtain out where out: "fst (Store_List ?w) = \<lparr>Code = 200, Status = ''Ok'', Data = PatientSlice out\<rparr>"
    and e: "elems (fst (snd (Store_List ?w))) out = patients ?w"
    and f: "\<forall>cs. elems (fst (snd (run ?g cs (snd (Store_List ?w))))) out = patients ?w"
    by blast
  from out have o: "out = \<lparr>arr = 2, len = 2, cap = 2\<rparr>" by (simp add: l)
  from f have "elems (fst (snd (run ?g ?cs (snd (Store_List ?w))))) out = patients ?w" by blast
  with ok out e r show ?thesis unfolding o by (simp add: main_store_patients)
qed

subsection \<open>C7: \<^verbatim>\<open>PUT\<close> with nothing to update\<close>

text \<open>
  C7. A PUT request to the handler of \<^verbatim>\<open>/patients/\<close> whose body decodes to a
  patient with fullname, sex, birthdate and address all empty after trimming: the
  response is 400 and the store and the memory are as before, \<^verbatim>\<open>Update\<close> is not
  called. With a well-formed id the message is "at least one field required to update";
  the id is checked first, so with a malformed one the message is "invalid id".
\<close>

theorem put_without_fields_is_rejected:
  assumes "Method r = ''PUT''" and "status w = None"
    and "decode (Body r) = Some upd"
    and "TrimSpace (Fullname upd) = []" and "TrimSpace (Sex upd) = []"
    and "TrimSpace (Birthdate upd) = []" and "TrimSpace (Address upd) = []"
  shows "patient_handler grow decode r (w, st) =
           Some (json_sent w 400
                   (WError 400 ''Bad Request''
                      (if idStr_of r = [] \<or> isl (ParseInt (idStr_of r)) then ''invalid id''
                       else ''at least one field required to update'')), st)"
proof (cases "idStr_of r = [] \<or> isl (ParseInt (idStr_of r))")
  case True
  then have "patient_handler grow decode r (w, st) =
      Some (json_sent w 400 (WError 400 ''Bad Request'' ''invalid id''), st)"
    using assms(2)
    by (cases "ParseInt (idStr_of r)")
      (simp_all add: patient_handler_def respond_def writeError_400 Let_def)
  with True show ?thesis by (simp only: if_True)
next
  case False
  then obtain i where i: "ParseInt (idStr_of r) = Inr i" and ne: "idStr_of r \<noteq> []"
    by (cases "ParseInt (idStr_of r)") auto
  have "patient_handler grow decode r (w, st) =
      Some (json_sent w 400
              (WError 400 ''Bad Request'' ''at least one field required to update''), st)"
    using assms i ne
    by (simp add: patient_handler_def respond_def writeError_400 Let_def)
  with False show ?thesis by (simp only: if_False)
qed

text \<open>\<^verbatim>\<open>PUT /patients/1\<close> with a sex of two blanks and nothing else.\<close>

theorem put_without_fields_is_rejected_witness:
  "Method \<lparr>Method = ''PUT'', Path = ''/patients/1'', Body = []\<rparr> = ''PUT'' \<and>
   ParseInt (idStr_of \<lparr>Method = ''PUT'', Path = ''/patients/1'', Body = []\<rparr>) = Inr 1 \<and>
   TrimSpace (Sex (zeroPatient\<lparr>Sex := ''  ''\<rparr>)) = [] \<and>
   patient_handler (\<lambda>c n. 2 * n) (\<lambda>b. Some (zeroPatient\<lparr>Sex := ''  ''\<rparr>))
       \<lparr>Method = ''PUT'', Path = ''/patients/1'', Body = []\<rparr>
       (newResponseWriter, main_store (\<lambda>c n. 2 * n)) =
     Some (\<lparr>header = [(''Content-Type'', ''application/json'')], status = Some 400,
            body = [WError 400 ''Bad Request'' ''at least one field required to update'']\<rparr>,
           main_store (\<lambda>c n. 2 * n))"
proof -
  let ?r = "\<lparr>Method = ''PUT'', Path = ''/patients/1'', Body = []\<rparr>"
  let ?upd = "zeroPatient\<lparr>Sex := ''  ''\<rparr>"
  have m: "Method ?r = ''PUT''" by simp
  have s: "status newResponseWriter = None" by (simp add: newResponseWriter_def)
  have i: "idStr_of ?r = ''1''" by (simp add: idStr_of_def TrimPrefix_def TrimSuffix_def)
  have p: "ParseInt (idStr_of ?r) = Inr 1"
    unfolding i by (simp add: ParseInt_def ParseUint_def isDigit_def)
  have ne: "idStr_of ?r \<noteq> []" unfolding i by simp
  have d: "(\<lambda>b. Some ?upd) (Body ?r) = Some ?upd" by simp
  have t: "TrimSpace (Fullname ?upd) = []" "TrimSpace (Sex ?upd) = []"
    "TrimSpace (Birthdate ?upd) = []" "TrimSpace (Address ?upd) = []"
    by (simp_all add: zeroPatient_def trim_eval)
  from put_without_fields_is_rejected [OF m s d t, of "\<lambda>c n. 2 * n" "main_store (\<lambda>c n. 2 * n)"]
    m p ne t(2)
  show ?thesis by (simp add: json_sent_def newResponseWriter_def)
qed

subsection \<open>C8: the error envelope\<close>

text \<open>
  C8, as amended. \<^verbatim>\<open>newResponseError\<close> labels every code with its reason phrase, 404
  with "Not Found", and with "Error" when the code has none. \<^verbatim>\<open>writeError\<close> writes
  an envelope whose code is zero with the code 500, and fills in the label only when the
  envelope's label is empty: then it is "Internal Server Error", otherwise the label
  stays. So an envelope built by \<^verbatim>\<open>newResponseError\<close> with the code zero is written
  with the code 500 and the label "Error".
\<close>

theorem error_envelope_labels:
  "newResponseError code msg =
     \<lparr>err_Code = code,
      err_Status = (if StatusText code = [] then ''Error'' else StatusText code),
      Error = msg\<rparr> \<and>
   newResponseError 404 msg = \<lparr>err_Code = 404, err_Status = ''Not Found'', Error = msg\<rparr> \<and>
   (status w = None \<and> err_Code e = 0 \<longrightarrow>
      writeError m e w =
        Some (json_sent w 500
                (WError 500
                   (if err_Status e = [] then ''Internal Server Error'' else err_Status e)
                   (Error e)))) \<and>
   (status w = None \<longrightarrow>
      writeError m (newResponseError 0 msg) w = Some (json_sent w 500 (WError 500 ''Error'' msg)))"
proof (intro conjI impI)
  show "newResponseError code msg =
     \<lparr>err_Code = code,
      err_Status = (if StatusText code = [] then ''Error'' else StatusText code),
      Error = msg\<rparr>"
    by (simp add: newResponseError_def Let_def)
  show "newResponseError 404 msg = \<lparr>err_Code = 404, err_Status = ''Not Found'', Error = msg\<rparr>"
    by (simp add: newResponseError_def StatusText_404)
  show "writeError m e w =
        Some (json_sent w 500
                (WError 500
                   (if err_Status e = [] then ''Internal Server Error'' else err_Status e)
                   (Error e)))"
    if "status w = None \<and> err_Code e = 0"
    using that
    by (simp add: writeError_def Let_def StatusText_500 writeJSON_fresh bodyAllowedForStatus_def)
  show "writeError m (newResponseError 0 msg) w = Some (json_sent w 500 (WError 500 ''Error'' msg))"
    if "status w = None"
    using that
    by (simp add: writeError_def newResponseError_def Let_def StatusText_0 writeJSON_fresh
        bodyAllowedForStatus_def)
qed

text \<open>
  An envelope with no code and no label, the label of a code with no phrase, and the
  envelope built for the code zero.
\<close>

theorem error_envelope_labels_witness:
  "status newResponseWriter = None \<and>
   err_Code \<lparr>err_Code = 0, err_Status = [], Error = ''boom''\<rparr> = 0 \<and>
   writeError [] \<lparr>err_Code = 0, err_Status = [], Error = ''boom''\<rparr> newResponseWriter =
     Some \<lparr>header = [(''Content-Type'', ''application/json'')], status = Some 500,
           body = [WError 500 ''Internal Server Error'' ''boom'']\<rparr> \<and>
   newResponseError 999 ''boom'' = \<lparr>err_Code = 999, err_Status = ''Error'', Error = ''boom''\<rparr> \<and>
   writeError [] (newResponseError 0 ''boom'') newResponseWriter =
     Some \<lparr>header = [(''Content-Type'', ''application/json'')], status = Some 500,
           body = [WError 500 ''Error'' ''boom'']\<rparr>"
proof -
  have s: "status newResponseWriter = None" by (simp add: newResponseWriter_def)
  have t: "StatusText 999 = []" by (simp add: StatusText_def statusTexts_def)
  note th = error_envelope_labels
    [of 999 "''boom''" newResponseWriter "\<lparr>err_Code = 0, err_Status = [], Error = ''boom''\<rparr>" "[]"]
  from th s t show ?thesis by (simp add: json_sent_def newResponseWriter_def)
qed

text \<open>
  C8 as stated fails for the code zero given to the building rule: the envelope is
  written with 500 and the label "Error", not "Internal Server Error".
\<close>

theorem error_envelope_zero_code_counterexample:
  "writeError [] (newResponseError 0 ''boom'') newResponseWriter =
     Some \<lparr>header = [(''Content-Type'', ''application/json'')], status = Some 500,
           body = [WError 500 ''Error'' ''boom'']\<rparr> \<and>
   ''Error'' \<noteq> ''Internal Server Error''"
  by (simp add: writeError_def newResponseError_def StatusText_def statusTexts_def
      writeJSON_def WriteHeader_def Header_Set_def Write_def bodyAllowedForStatus_def
      newResponseWriter_def Let_def)

subsection \<open>C9: the CORS middleware\<close>

text \<open>
  C9. On a writer whose header is not yet written, the middleware sets the three fields
  \<^verbatim>\<open>Access-Control-Allow-Origin: *\<close>,
  \<^verbatim>\<open>Access-Control-Allow-Methods: GET, POST, PUT, DELETE, OPTIONS\<close> and
  \<^verbatim>\<open>Access-Control-Allow-Headers: Content-Type, Authorization\<close>. For the method
  OPTIONS, whatever the path and whatever the next handler, it then writes the status
  204, adds nothing to the body, leaves the store alone and does not call the next
  handler. For any other method the result is that of the next handler on the writer
  with the three fields set.
\<close>

theorem cors_preflight_and_forwarding:
  assumes "status w = None"
  shows "\<exists>w'. map_of (header w') ''Access-Control-Allow-Origin'' = Some ''*'' \<and>
           map_of (header w') ''Access-Control-Allow-Methods'' =
             Some ''GET, POST, PUT, DELETE, OPTIONS'' \<and>
           map_of (header w') ''Access-Control-Allow-Headers'' =
             Some ''Content-Type, Authorization'' \<and>
           status w' = None \<and> body w' = body w \<and>
           (Method r = ''OPTIONS'' \<longrightarrow>
              corsMiddleware next r (w, st) = Some (w'\<lparr>status := Some 204\<rparr>, st)) \<and>
           (Method r \<noteq> ''OPTIONS'' \<longrightarrow> corsMiddleware next r (w, st) = next r (w', st))"
proof -
  let ?w' = "w\<lparr>header :=
     AList.update ''Access-Control-Allow-Headers'' ''Content-Type, Authorization''
       (AList.update ''Access-Control-Allow-Methods'' ''GET, POST, PUT, DELETE, OPTIONS''
          (AList.update ''Access-Control-Allow-Origin'' ''*'' (header w)))\<rparr>"
  have set3: "Header_Set ''Access-Control-Allow-Headers'' ''Content-Type, Authorization''
          (Header_Set ''Access-Control-Allow-Methods'' ''GET, POST, PUT, DELETE, OPTIONS''
             (Header_Set ''Access-Control-Allow-Origin'' ''*'' w)) = ?w'"
    using assms by (simp add: Header_Set_def)
  have c: "corsMiddleware next r (w, st) =
      (if Method r = ''OPTIONS'' then respond st (WriteHeader 204 ?w') else next r (?w', st))"
    by (simp add: corsMiddleware_def Let_def set3)
  show ?thesis
  proof (intro exI [of _ ?w'] conjI impI)
    show "map_of (header ?w') ''Access-Control-Allow-Origin'' = Some ''*''"
      by (simp add: update_conv')
    show "map_of (header ?w') ''Access-Control-Allow-Methods'' =
             Some ''GET, POST, PUT, DELETE, OPTIONS''"
      by (simp add: update_conv')
    show "map_of (header ?w') ''Access-Control-Allow-Headers'' =
             Some ''Content-Type, Authorization''"
      by (simp add: update_conv')
    show "status ?w' = None" using assms by simp
    show "body ?w' = body w" by simp
    show "corsMiddleware next r (w, st) = Some (?w'\<lparr>status := Some 204\<rparr>, st)"
      if "Method r = ''OPTIONS''"
      using that assms by (simp add: c respond_def WriteHeader_def)
    show "corsMiddleware next r (w, st) = next r (?w', st)" if "Method r \<noteq> ''OPTIONS''"
      using that by (simp add: c)
  qed
qed

text \<open>
  In front of the handler of \<^verbatim>\<open>/patients\<close>: a pre-flight for a path that is no
  route, and a PATCH that is forwarded and answered with 405.
\<close>

theorem cors_preflight_and_forwarding_witness:
  "status newResponseWriter = None \<and>
   corsMiddleware (patients_handler (\<lambda>c n. 2 * n) (\<lambda>b. None))
       \<lparr>Method = ''OPTIONS'', Path = ''/no/such/route'', Body = []\<rparr>
       (newResponseWriter, main_store (\<lambda>c n. 2 * n)) =
     Some (\<lparr>header = [(''Access-Control-Allow-Origin'', ''*''),
                      (''Access-Control-Allow-Methods'', ''GET, POST, PUT, DELETE, OPTIONS''),
                      (''Access-Control-Allow-Headers'', ''Content-Type, Authorization'')],
            status = Some 204, body = []\<rparr>, main_store (\<lambda>c n. 2 * n)) \<and>
   corsMiddleware (patients_handler (\<lambda>c n. 2 * n) (\<lambda>b. None))
       \<lparr>Method = ''PATCH'', Path = ''/patients'', Body = []\<rparr>
       (newResponseWriter, main_store (\<lambda>c n. 2 * n)) =
     Some (\<lparr>header = [(''Access-Control-Allow-Origin'', ''*''),
                      (''Access-Control-Allow-Methods'', ''GET, POST, PUT, DELETE, OPTIONS''),
                      (''Access-Control-Allow-Headers'', ''Content-Type, Authorization''),
                      (''Content-Type'', ''application/json'')],
            status = Some 405, body = [WError 405 ''Method Not Allowed'' ''method not allowed'']\<rparr>,
           main_store (\<lambda>c n. 2 * n))"
proof -
  let ?g = "\<lambda>c n :: nat. 2 * n"
  let ?next = "patients_handler ?g (\<lambda>b. None)"
  let ?o = "\<lparr>Method = ''OPTIONS'', Path = ''/no/such/route'', Body = []\<rparr>"
  let ?p = "\<lparr>Method = ''PATCH'', Path = ''/patients'', Body = []\<rparr>"
  have s: "status newResponseWriter = None" by (simp add: newResponseWriter_def)
  have eval: "corsMiddleware ?next ?o (newResponseWriter, main_store ?g) =
     Some (\<lparr>header = [(''Access-Control-Allow-Origin'', ''*''),
                      (''Access-Control-Allow-Methods'', ''GET, POST, PUT, DELETE, OPTIONS''),
                      (''Access-Control-Allow-Headers'', ''Content-Type, Authorization'')],
            status = Some 204, body = []\<rparr>, main_store ?g)"
    "corsMiddleware ?next ?p (newResponseWriter, main_store ?g) =
     Some (\<lparr>header = [(''Access-Control-Allow-Origin'', ''*''),
                      (''Access-Control-Allow-Methods'', ''GET, POST, PUT, DELETE, OPTIONS''),
                      (''Access-Control-Allow-Headers'', ''Content-Type, Authorization''),
                      (''Content-Type'', ''application/json'')],
            status = Some 405, body = [WError 405 ''Method Not Allowed'' ''method not allowed'']\<rparr>,
           main_store ?g)"
    by (simp_all add: corsMiddleware_def Header_Set_def WriteHeader_def respond_def
        newResponseWriter_def patients_handler_def writeError_def newResponseError_def
        StatusText_405 writeJSON_def Write_def bodyAllowedForStatus_def Let_def)
  from cors_preflight_and_forwarding [OF s, of ?o ?next "main_store ?g"]
  obtain w' where "map_of (header w') ''Access-Control-Allow-Origin'' = Some ''*''"
    and "corsMiddleware ?next ?o (newResponseWriter, main_store ?g) =
           Some (w'\<lparr>status := Some 204\<rparr>, main_store ?g)"
    by auto
  with s eval show ?thesis by simp
qed

subsection \<open>C10: what \<^verbatim>\<open>POST\<close> stores\<close>

text \<open>
  C10. A POST request to the handler of \<^verbatim>\<open>/patients\<close> whose body decodes to a
  patient with the four fields non-empty after trimming, on a well-formed store: the
  record appended to the store and returned in the envelope has the id the store
  assigned and the four fields exactly as decoded, white space included. Trimming is
  only for the test.
\<close>

theorem post_stores_untrimmed_fields:
  assumes "Method r = ''POST''" and "status w = None" and "store_ok st"
    and "decode (Body r) = Some p"
    and "TrimSpace (Fullname p) \<noteq> []" and "TrimSpace (Sex p) \<noteq> []"
    and "TrimSpace (Birthdate p) \<noteq> []" and "TrimSpace (Address p) \<noteq> []"
  shows "\<exists>w' st' q.
           patients_handler grow decode r (w, st) = Some (w', st') \<and>
           patients st' = patients st @ [q] \<and>
           body w' = body w @ [WResponse 201 ''Created'' (WPatient q)] \<and>
           ID q = nextID (snd st) \<and>
           Fullname q = Fullname p \<and> Sex q = Sex p \<and>
           Birthdate q = Birthdate p \<and> Address q = Address p"
proof -
  let ?q = "p\<lparr>ID := nextID (snd st)\<rparr>"
  from assms(5-8) have ne: "\<not> (TrimSpace (Fullname p) = [] \<or> TrimSpace (Sex p) = [] \<or>
            TrimSpace (Birthdate p) = [] \<or> TrimSpace (Address p) = [])"
    by simp
  note h = post_created [where decode = decode and p = p, OF assms(1,2,4) ne, of grow st]
  have ps: "patients (snd (Store_Create grow p st)) = patients st @ [?q]"
    by (rule Create_effect(1) [OF assms(3)])
  show ?thesis
    by (intro exI [of _ "json_sent w 201 (WResponse 201 ''Created'' (WPatient ?q))"]
        exI [of _ "snd (Store_Create grow p st)"] exI [of _ ?q])
      (simp add: h ps json_sent_def)
qed

text \<open>A patient whose fields have blanks and a tab around them is stored with them.\<close>

theorem post_stores_untrimmed_fields_witness:
  "store_ok (main_store (\<lambda>c n. 2 * n)) \<and>
   TrimSpace (Fullname dana) = ''Dana Example'' \<and> TrimSpace (Sex dana) = ''F'' \<and>
   TrimSpace (Birthdate dana) = ''2001-02-03'' \<and> TrimSpace (Address dana) = ''1 D Way'' \<and>
   Fullname (dana\<lparr>ID := 3\<rparr>) = ''  Dana Example '' \<and> Sex (dana\<lparr>ID := 3\<rparr>) = '' F'' \<and>
   Birthdate (dana\<lparr>ID := 3\<rparr>) = ''2001-02-03 '' \<and>
   Address (dana\<lparr>ID := 3\<rparr>) = [CHR 0x09] @ ''1 D Way'' \<and>
   patients_handler (\<lambda>c n. 2 * n) (\<lambda>b. Some dana)
       \<lparr>Method = ''POST'', Path = ''/patients'', Body = []\<rparr>
       (newResponseWriter, main_store (\<lambda>c n. 2 * n)) =
     Some (\<lparr>header = [(''Content-Type'', ''application/json'')], status = Some 201,
            body = [WResponse 201 ''Created'' (WPatient (dana\<lparr>ID := 3\<rparr>))]\<rparr>,
           ([[], [alice\<lparr>ID := 1\<rparr>, bob\<lparr>ID := 2\<rparr>],
             [alice\<lparr>ID := 1\<rparr>, bob\<lparr>ID := 2\<rparr>, dana\<lparr>ID := 3\<rparr>,
              zeroPatient, zeroPatient, zeroPatient]],
            \<lparr>users = \<lparr>arr = 2, len = 3, cap = 6\<rparr>, nextID = 4\<rparr>))"
proof -
  let ?g = "\<lambda>c n :: nat. 2 * n"
  let ?r = "\<lparr>Method = ''POST'', Path = ''/patients'', Body = []\<rparr>"
  have m: "Method ?r = ''POST''" by simp
  have s: "status newResponseWriter = None" by (simp add: newResponseWriter_def)
  have ok: "store_ok (main_store ?g)" by (rule main_store_ok)
  have d: "(\<lambda>b. Some dana) (Body ?r) = Some dana" by simp
  have t: "TrimSpace (Fullname dana) = ''Dana Example''" "TrimSpace (Sex dana) = ''F''"
    "TrimSpace (Birthdate dana) = ''2001-02-03''" "TrimSpace (Address dana) = ''1 D Way''"
    by (simp_all add: dana_def trim_eval)
  have ne: "TrimSpace (Fullname dana) \<noteq> []" "TrimSpace (Sex dana) \<noteq> []"
    "TrimSpace (Birthdate dana) \<noteq> []" "TrimSpace (Address dana) \<noteq> []"
    by (simp_all add: t)
  have w: "main_store ?g = ([[], [alice\<lparr>ID := 1\<rparr>, bob\<lparr>ID := 2\<rparr>]],
                 \<lparr>users = \<lparr>arr = 1, len = 2, cap = 2\<rparr>, nextID = 3\<rparr>)"
    by (simp add: main_store_def NewStore_def make_slice_def Store_Create_def append_slice_def
        elems_def write_at_def Let_def)
  have c: "Store_Create ?g dana (main_store ?g) =
      (\<lparr>Code = 201, Status = ''Created'', Data = PatientVal (dana\<lparr>ID := 3\<rparr>)\<rparr>,
       ([[], [alice\<lparr>ID := 1\<rparr>, bob\<lparr>ID := 2\<rparr>],
             [alice\<lparr>ID := 1\<rparr>, bob\<lparr>ID := 2\<rparr>, dana\<lparr>ID := 3\<rparr>,
              zeroPatient, zeroPatient, zeroPatient]],
            \<lparr>users = \<lparr>arr = 2, len = 3, cap = 6\<rparr>, nextID = 4\<rparr>))"
    unfolding w
    by (simp add: Store_Create_def append_slice_def elems_def Let_def numeral_3_eq_3)
  from post_stores_untrimmed_fields [OF m s ok d ne, of ?g]
  obtain w' st' q where h: "patients_handler ?g (\<lambda>b. Some dana) ?r (newResponseWriter, main_store ?g) =
      Some (w', st')"
    and q: "patients st' = patients (main_store ?g) @ [q]" "Fullname q = Fullname dana"
    by blast
  have e: "patients_handler ?g (\<lambda>b. Some dana) ?r (newResponseWriter, main_store ?g) =
      Some (json_sent newResponseWriter 201 (WResponse 201 ''Created'' (WPatient (dana\<lparr>ID := 3\<rparr>))),
            snd (Store_Create ?g dana (main_store ?g)))"
    using post_created [where decode = "\<lambda>b. Some dana" and p = dana, OF m s d, of ?g "main_store ?g"] ne
    by (simp add: main_store_nextID)
  have f: "Fullname (dana\<lparr>ID := 3\<rparr>) = ''  Dana Example ''" "Sex (dana\<lparr>ID := 3\<rparr>) = '' F''"
    "Birthdate (dana\<lparr>ID := 3\<rparr>) = ''2001-02-03 ''"
    "Address (dana\<lparr>ID := 3\<rparr>) = [CHR 0x09] @ ''1 D Way''"
    by (simp_all add: dana_def)
  from ok t e h show ?thesis
    unfolding f by (simp add: c json_sent_def newResponseWriter_def)
qed

end
